theory Spec2Isabelle
  imports
    Main
    "HOL-Library.Finite_Map"
    "HOL-Library.Char_ord"
    "HOL-Library.List_Lexorder"
    "HOL-Library.Product_Lexorder"
begin

section \<open>The request-governance layer: rate limiter and read-through cache\<close>

text \<open>
  The theory embeds \<^verbatim>\<open>checkRateLimit\<close> (lib/services/redis/rate-limit.ts), the cache helpers
  (lib/services/redis/cache.ts) and the Hono middleware \<^verbatim>\<open>rateLimiter\<close>
  (lib/middleware/rate-limiter.ts).  All three talk to a Redis server through the ioredis
  client, which is not part of the repository; the server is modelled below as an explicit
  state with the commands the code issues.

  Conventions of the embedding:
  \<^item> every \<^verbatim>\<open>await redis.cmd(...)\<close> is a function from the store to a result and the next
    store; a rejected promise is \<open>Inl\<close> of an \<open>error\<close>;
  \<^item> JavaScript numbers that the code uses as counts, milliseconds and seconds are \<open>int\<close>;
  \<^item> \<^verbatim>\<open>Date.now()\<close>, \<^verbatim>\<open>Math.random()\<close> and \<^verbatim>\<open>nanoid()\<close> are inputs of the function that
    reads them; a \<^verbatim>\<open>Date\<close> is its millisecond value;
  \<^item> calls of the logger have no effect on any result and are left out.
\<close>

subsection \<open>Values and errors\<close>

text \<open>
  The JavaScript values that \<^verbatim>\<open>JSON.stringify\<close> renders as a text: \<^verbatim>\<open>null\<close>, booleans,
  numbers (a finite number is an integer here; \<^verbatim>\<open>NaN\<close>; \<^verbatim>\<open>Infinity\<close> with its sign,
  \<open>True\<close> for the positive one), strings, valid \<^verbatim>\<open>Date\<close> objects (given by the string that
  \<^verbatim>\<open>toISOString()\<close> returns), arrays and plain objects.  \<^verbatim>\<open>undefined\<close>, functions and
  symbols, for which \<^verbatim>\<open>JSON.stringify\<close> yields no text, are not values of this type.
\<close>

datatype jsval =
    JNull
  | JBool bool
  | JNum int
  | JNaN
  | JInfinity bool
  | JStr string
  | JDate string
  | JArr "jsval list"
  | JObj "(string \<times> jsval) list"

text \<open>
  The JSON value that \<^verbatim>\<open>JSON.stringify\<close> writes for a value, and that \<^verbatim>\<open>JSON.parse\<close> reads
  back from the text: \<^verbatim>\<open>NaN\<close> and the infinities are written as \<^verbatim>\<open>null\<close>, a \<^verbatim>\<open>Date\<close> as
  its ISO string, at the top and inside arrays and objects alike.
\<close>

primrec json_of :: "jsval \<Rightarrow> jsval" where
  "json_of JNull = JNull"
| "json_of (JBool b) = JBool b"
| "json_of (JNum n) = JNum n"
| "json_of JNaN = JNull"
| "json_of (JInfinity positive) = JNull"
| "json_of (JStr x) = JStr x"
| "json_of (JDate rendered) = JStr rendered"
| "json_of (JArr xs) = JArr (map json_of xs)"
| "json_of (JObj fs) = JObj (map (map_prod id json_of) fs)"

text \<open>
  A string value held by the store.  \<open>Stringified j\<close> is the JSON text of the JSON value
  \<open>j\<close>, and \<open>Raw x\<close> is a text \<open>x\<close> that is not the rendering of any JSON value.
\<close>

datatype payload = Stringified jsval | Raw string

datatype error =
    StoreUnavailable      \<comment> \<open>connection lost or command timed out\<close>
  | WrongType             \<comment> \<open>command against a key holding the wrong kind of value\<close>
  | InvalidExpire         \<comment> \<open>SETEX with a non-positive time to live\<close>
  | SyntaxError           \<comment> \<open>\<^verbatim>\<open>JSON.parse\<close> on a text that is not JSON\<close>
  | TypeError             \<comment> \<open>destructuring or property access on a non-object\<close>
  | Thrown string         \<comment> \<open>an exception raised by caller-supplied code\<close>

definition JSON_stringify :: "jsval \<Rightarrow> payload" where
  "JSON_stringify v = Stringified (json_of v)"

definition JSON_parse :: "payload \<Rightarrow> error + jsval" where
  "JSON_parse t = (case t of Stringified v \<Rightarrow> Inr v | Raw s \<Rightarrow> Inl SyntaxError)"

text \<open>Truthiness of a string: only the empty string is falsy; a JSON text is never empty.\<close>

definition truthy_text :: "payload \<Rightarrow> bool" where
  "truthy_text t = (case t of Stringified v \<Rightarrow> True | Raw s \<Rightarrow> s \<noteq> [])"

subsection \<open>Decimal rendering of integers\<close>

text \<open>The template literal \<^verbatim>\<open>`${now}`\<close> renders an integer in decimal.\<close>

fun show_nat :: "nat \<Rightarrow> string" where
  "show_nat n =
     (if n < 10 then [''0123456789'' ! n]
      else show_nat (n div 10) @ [''0123456789'' ! (n mod 10)])"

declare show_nat.simps [simp del]

definition show_int :: "int \<Rightarrow> string" where
  "show_int i = (if i < 0 then CHR ''-'' # show_nat (nat (- i)) else show_nat (nat i))"

subsection \<open>The Shared Counter Store\<close>

text \<open>
  A sorted set is a list of (member, score) pairs; Redis orders it by score and then by
  member.  A key holds either a string or a sorted set, together with an optional deadline
  (absolute server time in milliseconds) after which the key is gone.
\<close>

type_synonym zset = "(string \<times> int) list"

datatype rvalue = RString payload | RZSet zset

text \<open>
  \<open>faults\<close> is the schedule of infrastructure failures: each command consumes the head, and
  fails with \<open>StoreUnavailable\<close>, leaving the data untouched, when the head is \<open>True\<close>;
  an empty schedule means no further failure.  \<open>glob\<close> is the server's pattern matcher
  used by KEYS (pattern first, then the key).
\<close>

record store =
  entries :: "(string, rvalue \<times> int option) fmap"
  clock :: int
  faults :: "bool list"
  glob :: "string \<Rightarrow> string \<Rightarrow> bool"

type_synonym 'a result = "(error + 'a) \<times> store"

definition lookup :: "store \<Rightarrow> string \<Rightarrow> (rvalue \<times> int option) option" where
  "lookup s k = fmlookup (entries s) k"

definition put :: "string \<Rightarrow> rvalue \<times> int option \<Rightarrow> store \<Rightarrow> store" where
  "put k e s = s\<lparr>entries := fmupd k e (entries s)\<rparr>"

definition drop_key :: "string \<Rightarrow> store \<Rightarrow> store" where
  "drop_key k s = s\<lparr>entries := fmdrop k (entries s)\<rparr>"

text \<open>Time passing on the server: the clock moves to \<open>t\<close> and keys past their deadline vanish.\<close>

definition live :: "int \<Rightarrow> store \<Rightarrow> string \<Rightarrow> bool" where
  "live t s k = (case lookup s k of Some (v, Some d) \<Rightarrow> t < d | _ \<Rightarrow> True)"

definition tick :: "int \<Rightarrow> store \<Rightarrow> store" where
  "tick t s = s\<lparr>entries := fmfilter (live t s) (entries s), clock := t\<rparr>"

text \<open>Every command first consults the failure schedule.\<close>

definition pop_fault :: "store \<Rightarrow> bool \<times> store" where
  "pop_fault s = (case faults s of [] \<Rightarrow> (False, s) | b # bs \<Rightarrow> (b, s\<lparr>faults := bs\<rparr>))"

definition command :: "(store \<Rightarrow> 'a result) \<Rightarrow> store \<Rightarrow> 'a result" where
  "command run s =
     (case pop_fault s of
        (True, s') \<Rightarrow> (Inl StoreUnavailable, s')
      | (False, s') \<Rightarrow> run s')"

datatype bound = NegInf | Score int | PosInf

definition above :: "bound \<Rightarrow> int \<Rightarrow> bool" where
  "above lo x = (case lo of NegInf \<Rightarrow> True | Score l \<Rightarrow> l \<le> x | PosInf \<Rightarrow> False)"

definition below :: "bound \<Rightarrow> int \<Rightarrow> bool" where
  "below hi x = (case hi of NegInf \<Rightarrow> False | Score h \<Rightarrow> x \<le> h | PosInf \<Rightarrow> True)"

text \<open>A sorted set that becomes empty is removed together with its key.\<close>

definition store_zset :: "string \<Rightarrow> zset \<Rightarrow> int option \<Rightarrow> store \<Rightarrow> store" where
  "store_zset k zs d s = (if zs = [] then drop_key k s else put k (RZSet zs, d) s)"

text \<open>ZREMRANGEBYSCORE key min max: removes the members with min \<le> score \<le> max.\<close>

definition zremrangebyscore :: "string \<Rightarrow> bound \<Rightarrow> bound \<Rightarrow> store \<Rightarrow> int result" where
  "zremrangebyscore k lo hi = command (\<lambda>s.
     case lookup s k of
       None \<Rightarrow> (Inr 0, s)
     | Some (RString t, d) \<Rightarrow> (Inl WrongType, s)
     | Some (RZSet zs, d) \<Rightarrow>
         (let keep = filter (\<lambda>p. \<not> (above lo (snd p) \<and> below hi (snd p))) zs
          in (Inr (int (length zs) - int (length keep)), store_zset k keep d s)))"

text \<open>ZCARD key.\<close>

definition zcard :: "string \<Rightarrow> store \<Rightarrow> int result" where
  "zcard k = command (\<lambda>s.
     case lookup s k of
       None \<Rightarrow> (Inr 0, s)
     | Some (RString t, d) \<Rightarrow> (Inl WrongType, s)
     | Some (RZSet zs, d) \<Rightarrow> (Inr (int (length zs)), s))"

text \<open>ZADD key score member: a member already present only has its score replaced.\<close>

definition zset_add :: "string \<Rightarrow> int \<Rightarrow> zset \<Rightarrow> zset" where
  "zset_add m sc zs =
     (if m \<in> fst ` set zs then map (\<lambda>p. if fst p = m then (m, sc) else p) zs
      else zs @ [(m, sc)])"

definition zadd :: "string \<Rightarrow> int \<Rightarrow> string \<Rightarrow> store \<Rightarrow> int result" where
  "zadd k sc m = command (\<lambda>s.
     case lookup s k of
       None \<Rightarrow> (Inr 1, put k (RZSet (zset_add m sc []), None) s)
     | Some (RString t, d) \<Rightarrow> (Inl WrongType, s)
     | Some (RZSet zs, d) \<Rightarrow>
         (Inr (if m \<in> fst ` set zs then 0 else 1), put k (RZSet (zset_add m sc zs), d) s))"

text \<open>EXPIRE key seconds: a non-positive time to live deletes the key at once.\<close>

definition expire :: "string \<Rightarrow> int \<Rightarrow> store \<Rightarrow> int result" where
  "expire k secs = command (\<lambda>s.
     case lookup s k of
       None \<Rightarrow> (Inr 0, s)
     | Some (v, d) \<Rightarrow>
         (if secs \<le> 0 then (Inr 1, drop_key k s)
          else (Inr 1, put k (v, Some (clock s + secs * 1000)) s)))"

text \<open>
  ZRANGE key start stop WITHSCORES: the members from rank start to rank stop (inclusive,
  negative ranks count from the end) in the order of (score, member).  ioredis returns the
  flat array member, score, member, score, ...; the model returns the pairs.
\<close>

definition zorder :: "zset \<Rightarrow> zset" where
  "zorder zs = sort_key (\<lambda>p. (snd p, fst p)) zs"

definition zslice :: "int \<Rightarrow> int \<Rightarrow> 'a list \<Rightarrow> 'a list" where
  "zslice start stop xs =
     (let n = int (length xs);
          a = (if start < 0 then max 0 (n + start) else start);
          b = (if stop < 0 then n + stop else min stop (n - 1))
      in if a > b \<or> a \<ge> n then [] else take (nat (b - a + 1)) (drop (nat a) xs))"

definition zrange_withscores :: "string \<Rightarrow> int \<Rightarrow> int \<Rightarrow> store \<Rightarrow> zset result" where
  "zrange_withscores k start stop = command (\<lambda>s.
     case lookup s k of
       None \<Rightarrow> (Inr [], s)
     | Some (RString t, d) \<Rightarrow> (Inl WrongType, s)
     | Some (RZSet zs, d) \<Rightarrow> (Inr (zslice start stop (zorder zs)), s))"

text \<open>ZREM key member.\<close>

definition zrem :: "string \<Rightarrow> string \<Rightarrow> store \<Rightarrow> int result" where
  "zrem k m = command (\<lambda>s.
     case lookup s k of
       None \<Rightarrow> (Inr 0, s)
     | Some (RString t, d) \<Rightarrow> (Inl WrongType, s)
     | Some (RZSet zs, d) \<Rightarrow>
         (let keep = filter (\<lambda>p. fst p \<noteq> m) zs
          in (Inr (int (length zs) - int (length keep)), store_zset k keep d s)))"

text \<open>GET, SETEX, SET, DEL and KEYS.\<close>

definition get :: "string \<Rightarrow> store \<Rightarrow> payload option result" where
  "get k = command (\<lambda>s.
     case lookup s k of
       None \<Rightarrow> (Inr None, s)
     | Some (RString t, d) \<Rightarrow> (Inr (Some t), s)
     | Some (RZSet zs, d) \<Rightarrow> (Inl WrongType, s))"

definition setex :: "string \<Rightarrow> int \<Rightarrow> payload \<Rightarrow> store \<Rightarrow> unit result" where
  "setex k secs v = command (\<lambda>s.
     if secs \<le> 0 then (Inl InvalidExpire, s)
     else (Inr (), put k (RString v, Some (clock s + secs * 1000)) s))"

definition set_key :: "string \<Rightarrow> payload \<Rightarrow> store \<Rightarrow> unit result" where
  "set_key k v = command (\<lambda>s. (Inr (), put k (RString v, None) s))"

definition del :: "string list \<Rightarrow> store \<Rightarrow> int result" where
  "del ks = command (\<lambda>s.
     (Inr (int (length (filter (\<lambda>k. lookup s k \<noteq> None) (remdups ks)))),
      fold drop_key ks s))"

definition keys :: "string \<Rightarrow> store \<Rightarrow> string list result" where
  "keys pat = command (\<lambda>s.
     (Inr (filter (glob s pat) (sorted_list_of_fset (fmdom (entries s)))), s))"

subsection \<open>The Rate Limit Engine\<close>

record rate_limit_result =
  allowed :: bool
  remaining :: int
  resetAt :: int
  memberId :: "string option"

text \<open>\<^verbatim>\<open>Math.ceil(windowMs / 1000)\<close> on an integer number of milliseconds.\<close>

definition ceil_div_1000 :: "int \<Rightarrow> int" where
  "ceil_div_1000 w = - ((- w) div 1000)"

text \<open>The member written for an admitted request: \<^verbatim>\<open>`${now}-${rnd}`\<close>.\<close>

definition member_id :: "int \<Rightarrow> string \<Rightarrow> string" where
  "member_id now rnd = show_int now @ ''-'' @ rnd"

text \<open>
  The body of the \<^verbatim>\<open>try\<close> block.  \<open>now\<close> is the value of \<^verbatim>\<open>Date.now()\<close> and \<open>rnd\<close> the
  string \<^verbatim>\<open>Math.random().toString(36).substring(7)\<close>.  In the denied branch
  \<^verbatim>\<open>oldestEntry[1]\<close> is the score of the first member, rendered in decimal: it is
  defined, and then a non-empty string and truthy, exactly when ZRANGE returned a member,
  and \<^verbatim>\<open>parseInt\<close> reads the integer score back.
\<close>

definition checkRateLimit_try ::
    "string \<Rightarrow> int \<Rightarrow> int \<Rightarrow> int \<Rightarrow> string \<Rightarrow> store \<Rightarrow> rate_limit_result result" where
  "checkRateLimit_try key maxRequests windowMs now rnd s =
     (let windowStart = now - windowMs in
      case zremrangebyscore key NegInf (Score windowStart) s of
        (Inl e, s1) \<Rightarrow> (Inl e, s1)
      | (Inr removed, s1) \<Rightarrow>
      case zcard key s1 of
        (Inl e, s2) \<Rightarrow> (Inl e, s2)
      | (Inr count, s2) \<Rightarrow>
          if count < maxRequests then
            (let mid = member_id now rnd in
             case zadd key now mid s2 of
               (Inl e, s3) \<Rightarrow> (Inl e, s3)
             | (Inr added, s3) \<Rightarrow>
             case expire key (ceil_div_1000 windowMs + 1) s3 of
               (Inl e, s4) \<Rightarrow> (Inl e, s4)
             | (Inr ok, s4) \<Rightarrow>
                 (Inr \<lparr>allowed = True, remaining = maxRequests - count - 1,
                       resetAt = now + windowMs, memberId = Some mid\<rparr>, s4))
          else
            (case zrange_withscores key 0 0 s2 of
               (Inl e, s3) \<Rightarrow> (Inl e, s3)
             | (Inr oldestEntry, s3) \<Rightarrow>
                 (Inr \<lparr>allowed = False, remaining = 0,
                       resetAt = (case oldestEntry of
                                    [] \<Rightarrow> now + windowMs
                                  | p # ps \<Rightarrow> snd p + windowMs),
                       memberId = None\<rparr>, s3)))"

definition rate_limit_key :: "string \<Rightarrow> string" where
  "rate_limit_key identifier = ''rate_limit:'' @ identifier"

definition checkRateLimit ::
    "string \<Rightarrow> int \<Rightarrow> int \<Rightarrow> int \<Rightarrow> string \<Rightarrow> store \<Rightarrow> rate_limit_result \<times> store" where
  "checkRateLimit identifier maxRequests windowMs now rnd s =
     (case checkRateLimit_try (rate_limit_key identifier) maxRequests windowMs now rnd s of
        (Inr r, s') \<Rightarrow> (r, s')
      | (Inl e, s') \<Rightarrow>
          (\<lparr>allowed = True, remaining = maxRequests,
            resetAt = now + windowMs, memberId = None\<rparr>, s'))"


subsection \<open>The Cache Engine\<close>

text \<open>
  The low-level helpers wrap one command each in \<^verbatim>\<open>try { ... } catch (error) { log; throw error }\<close>:
  the error they catch is the error they raise.  (\<^verbatim>\<open>incrementCounter\<close>, the same wrapper
  around INCR, has no caller in the engines and is left out.)
\<close>

definition setWithExpiry :: "string \<Rightarrow> payload \<Rightarrow> int \<Rightarrow> store \<Rightarrow> unit result" where
  "setWithExpiry key val ttlSeconds s =
     (case setex key ttlSeconds val s of
        (Inl e, s') \<Rightarrow> (Inl e, s')
      | (Inr ok, s') \<Rightarrow> (Inr ok, s'))"

definition getValue :: "string \<Rightarrow> store \<Rightarrow> payload option result" where
  "getValue key s =
     (case get key s of
        (Inl e, s') \<Rightarrow> (Inl e, s')
      | (Inr v, s') \<Rightarrow> (Inr v, s'))"

definition deleteKey :: "string \<Rightarrow> store \<Rightarrow> int result" where
  "deleteKey key s =
     (case del [key] s of
        (Inl e, s') \<Rightarrow> (Inl e, s')
      | (Inr n, s') \<Rightarrow> (Inr n, s'))"

text \<open>\<^verbatim>\<open>setJson(key, value, ttlSeconds?)\<close>: \<^verbatim>\<open>if (ttlSeconds)\<close> is false for a missing and for a zero ttl.\<close>

definition setJson :: "string \<Rightarrow> jsval \<Rightarrow> int option \<Rightarrow> store \<Rightarrow> unit result" where
  "setJson key val ttlSeconds s =
     (let stringified = JSON_stringify val in
      case (case ttlSeconds of
              Some ttl \<Rightarrow> if ttl \<noteq> 0 then setex key ttl stringified s
                          else set_key key stringified s
            | None \<Rightarrow> set_key key stringified s) of
        (Inl e, s') \<Rightarrow> (Inl e, s')
      | (Inr ok, s') \<Rightarrow> (Inr ok, s'))"

text \<open>
  \<^verbatim>\<open>getJson(key)\<close> returns \<^verbatim>\<open>T | null\<close>; \<^verbatim>\<open>null\<close> is \<open>JNull\<close>, whether it stands for a
  missing key, an empty text or the parsed text \<^verbatim>\<open>"null"\<close>.
\<close>

definition getJson :: "string \<Rightarrow> store \<Rightarrow> jsval result" where
  "getJson key s =
     (case get key s of
        (Inl e, s') \<Rightarrow> (Inl e, s')
      | (Inr None, s') \<Rightarrow> (Inr JNull, s')
      | (Inr (Some t), s') \<Rightarrow>
          if \<not> truthy_text t then (Inr JNull, s')
          else (case JSON_parse t of
                  Inl e \<Rightarrow> (Inl e, s')
                | Inr v \<Rightarrow> (Inr v, s')))"

text \<open>
  \<^verbatim>\<open>cache(key, fetcher, ttlSeconds = 3600)\<close>.  The fetcher is caller-supplied code working on
  a system of record \<open>'w\<close> of its own: it returns a value or raises, and leaves a new \<open>'w\<close>.
  An invocation of the fetcher is therefore visible in the \<open>'w\<close> that \<open>cache\<close> returns.
\<close>

type_synonym 'w fetcher = "'w \<Rightarrow> (error + jsval) \<times> 'w"

definition cache ::
    "string \<Rightarrow> 'w fetcher \<Rightarrow> int option \<Rightarrow> store \<Rightarrow> 'w \<Rightarrow> (error + jsval) \<times> store \<times> 'w" where
  "cache key fetcher ttlArg s w =
     (let ttlSeconds = (case ttlArg of None \<Rightarrow> 3600 | Some t \<Rightarrow> t);
          on_error = (\<lambda>s' w'. case fetcher w' of (r, w'') \<Rightarrow> (r, s', w''))
      in case getJson key s of
           (Inl e, s1) \<Rightarrow> on_error s1 w
         | (Inr cached, s1) \<Rightarrow>
             if cached \<noteq> JNull then (Inr cached, s1, w)
             else (case fetcher w of
                     (Inl e, w1) \<Rightarrow> on_error s1 w1
                   | (Inr fresh, w1) \<Rightarrow>
                       (case setJson key fresh (Some ttlSeconds) s1 of
                          (Inl e, s2) \<Rightarrow> on_error s2 w1
                        | (Inr ok, s2) \<Rightarrow> (Inr fresh, s2, w1))))"

definition invalidateCache :: "string \<Rightarrow> store \<Rightarrow> int result" where
  "invalidateCache pat s =
     (case keys pat s of
        (Inl e, s1) \<Rightarrow> (Inl e, s1)
      | (Inr ks, s1) \<Rightarrow>
          if length ks = 0 then (Inr 0, s1)
          else (case del ks s1 of
                  (Inl e, s2) \<Rightarrow> (Inl e, s2)
                | (Inr deleted, s2) \<Rightarrow> (Inr deleted, s2)))"


subsection \<open>The Rate Limit Middleware\<close>

record response =
  status :: int
  body :: jsval

text \<open>
  The Hono context, as far as the middleware uses it: the request headers (lower-case
  names, as \<^verbatim>\<open>c.req.header()\<close> returns them), the request path, the response headers set
  with \<^verbatim>\<open>c.header\<close>, the variables set with \<^verbatim>\<open>c.set\<close>, and \<open>c_res\<close> for \<^verbatim>\<open>c.res\<close>, the response
  that a downstream handler has produced (none before it has).
\<close>

record hono_context =
  req_headers :: "(string \<times> string) list"
  req_path :: string
  res_headers :: "(string \<times> string) list"
  vars :: "(string \<times> string) list"
  c_res :: "response option"

text \<open>
  \<^verbatim>\<open>finalConfig\<close>, the defaults overridden by the caller's configuration.  The fields
  \<^verbatim>\<open>storeAnalytics\<close>, \<^verbatim>\<open>cost\<close>, \<^verbatim>\<open>enableBackoff\<close>, \<^verbatim>\<open>backoffMultiplier\<close> and \<^verbatim>\<open>maxBackoffMs\<close>
  are declared by the interface and never read.
\<close>

record rate_limit_config =
  windowMs :: int
  maxRequests :: int
  keyGenerator :: "hono_context \<Rightarrow> string"
  skipSuccessfulRequests :: bool
  skipFailedRequests :: bool
  message :: "string option"
  handler :: "(hono_context \<Rightarrow> response) option"
  whitelist :: "string list option"
  standardHeaders :: bool

text \<open>What one run of the middleware reads from its environment before the downstream runs.\<close>

record env =
  env_now :: int           \<comment> \<open>\<^verbatim>\<open>Date.now()\<close> inside \<^verbatim>\<open>checkRateLimit\<close>\<close>
  env_random :: string     \<comment> \<open>\<^verbatim>\<open>Math.random().toString(36).substring(7)\<close>\<close>
  env_nanoid :: string     \<comment> \<open>\<^verbatim>\<open>nanoid()\<close>\<close>
  env_stamp :: int         \<comment> \<open>\<^verbatim>\<open>Date.now()\<close> for \<^verbatim>\<open>requestTimestamp\<close>\<close>
  env_header_now :: int    \<comment> \<open>\<^verbatim>\<open>Date.now()\<close> when the reset header is computed\<close>

definition ipHeaders :: "string list" where
  "ipHeaders = [''cf-connecting-ip'', ''x-real-ip'', ''x-forwarded-for'',
                ''x-client-ip'', ''true-client-ip'', ''x-cluster-client-ip'']"

text \<open>
  \<^verbatim>\<open>String.prototype.trim\<close> on a header value.  A header value is a byte string, each
  \<open>char\<close> one code unit from U+0000 to U+00FF; the white space and line terminators of
  JavaScript in that range are tab, line feed, vertical tab, form feed, carriage return,
  space and the no-break space U+00A0.
\<close>

definition is_space :: "char \<Rightarrow> bool" where
  "is_space ch =
     (ch \<in> set [CHR '' '', CHR 0x09, CHR 0x0A, CHR 0x0B, CHR 0x0C, CHR 0x0D, CHR 0xA0])"

definition trim :: "string \<Rightarrow> string" where
  "trim v = rev (dropWhile is_space (rev (dropWhile is_space v)))"

text \<open>The loop over \<^verbatim>\<open>ipHeaders\<close>; an empty header value is falsy and skipped.\<close>

fun first_ip_header :: "(string \<Rightarrow> string option) \<Rightarrow> string list \<Rightarrow> string option" where
  "first_ip_header headers [] = None"
| "first_ip_header headers (header # rest) =
     (case headers header of
        None \<Rightarrow> first_ip_header headers rest
      | Some v \<Rightarrow>
          if v = [] then first_ip_header headers rest
          else if header = ''x-forwarded-for''
               then Some (trim (takeWhile (\<lambda>ch. ch \<noteq> CHR '','') v))
               else Some v)"

definition getClientIp :: "hono_context \<Rightarrow> string" where
  "getClientIp c =
     (let headers = map_of (req_headers c) in
      case first_ip_header headers ipHeaders of
        Some ip \<Rightarrow> ip
      | None \<Rightarrow>
          (case headers ''remote-addr'' of
             None \<Rightarrow> ''unknown''
           | Some v \<Rightarrow> if v = [] then ''unknown'' else v))"

definition defaultKeyGenerator :: "hono_context \<Rightarrow> string" where
  "defaultKeyGenerator c = getClientIp c @ '':'' @ req_path c"

definition default_config :: rate_limit_config where
  "default_config =
     \<lparr>windowMs = 60000, maxRequests = 100, keyGenerator = defaultKeyGenerator,
      skipSuccessfulRequests = False, skipFailedRequests = False,
      message = None, handler = None, whitelist = None, standardHeaders = True\<rparr>"

definition set_header :: "string \<Rightarrow> string \<Rightarrow> hono_context \<Rightarrow> hono_context" where
  "set_header name v c = c\<lparr>res_headers := (name, v) # filter (\<lambda>h. fst h \<noteq> name) (res_headers c)\<rparr>"

definition set_var :: "string \<Rightarrow> string \<Rightarrow> hono_context \<Rightarrow> hono_context" where
  "set_var name v c = c\<lparr>vars := (name, v) # filter (\<lambda>h. fst h \<noteq> name) (vars c)\<rparr>"

definition json_field :: "jsval \<Rightarrow> string \<Rightarrow> jsval option" where
  "json_field v name = (case v of JObj fs \<Rightarrow> map_of fs name | _ \<Rightarrow> None)"

text \<open>The key of the Rollback Record: \<^verbatim>\<open>`ratelimit:request:${requestId}`\<close>.\<close>

definition request_key :: "string \<Rightarrow> string" where
  "request_key requestId = ''ratelimit:request:'' @ requestId"

text \<open>
  The part of the middleware that runs before \<^verbatim>\<open>await next()\<close>, inside the outer
  \<^verbatim>\<open>try\<close> and after the whitelist test.  The result \<open>Some r\<close> is a response that ends the
  request (the 429 or the custom handler's); \<open>None\<close> means the downstream runs next.
\<close>

definition rateLimiter_before ::
    "rate_limit_config \<Rightarrow> env \<Rightarrow> hono_context \<Rightarrow> store \<Rightarrow> (error + response option) \<times> hono_context \<times> store" where
  "rateLimiter_before cfg ev c s =
     (let identifier = keyGenerator cfg c;
          effectiveMaxRequests = maxRequests cfg;
          effectiveWindowMs = windowMs cfg
      in case checkRateLimit identifier effectiveMaxRequests effectiveWindowMs
                (env_now ev) (env_random ev) s of
      (res, s1) \<Rightarrow>
        (let requestId = env_nanoid ev;
             requestTimestamp = env_stamp ev;
             c1 = set_var ''rateLimitRequestId'' requestId c
         in case (case memberId res of
                    None \<Rightarrow> (Inr (), s1)
                  | Some mid \<Rightarrow>
                      if (skipSuccessfulRequests cfg \<or> skipFailedRequests cfg) \<and> mid \<noteq> []
                      then setWithExpiry (request_key requestId)
                             (JSON_stringify (JObj
                                [(''identifier'', JStr identifier),
                                 (''timestamp'', JNum requestTimestamp),
                                 (''memberId'', JStr mid),
                                 (''key'', JStr (''rate_limit:'' @ identifier))]))
                             60 s1
                      else (Inr (), s1)) of
              (Inl e, s2) \<Rightarrow> (Inl e, c1, s2)
            | (Inr u, s2) \<Rightarrow>
                if \<not> allowed res then
                  (let resetTime = ceil_div_1000 (resetAt res - env_header_now ev);
                       c2 = (if standardHeaders cfg
                             then set_header ''Retry-After'' (show_int resetTime)
                                   (set_header ''X-RateLimit-Reset'' (show_int resetTime)
                                   (set_header ''X-RateLimit-Remaining'' ''0''
                                   (set_header ''X-RateLimit-Limit''
                                      (show_int effectiveMaxRequests) c1)))
                             else c1)
                   in case handler cfg of
                        Some h \<Rightarrow> (Inr (Some (h c2)), c2, s2)
                      | None \<Rightarrow>
                          (Inr (Some \<lparr>status = 429,
                                      body = JObj
                                        [(''error'', JStr ''Too Many Requests''),
                                         (''message'', JStr
                                            (case message cfg of
                                               None \<Rightarrow> ''Rate limit exceeded. Please try again later.''
                                             | Some m \<Rightarrow>
                                                 if m = []
                                                 then ''Rate limit exceeded. Please try again later.''
                                                 else m)),
                                         (''retryAfter'', JNum resetTime)]\<rparr>),
                           c2, s2))
                else
                  (let c2 = (if standardHeaders cfg
                             then set_header ''X-RateLimit-Reset''
                                     (show_int (ceil_div_1000 (resetAt res - env_header_now ev)))
                                   (set_header ''X-RateLimit-Remaining'' (show_int (remaining res))
                                   (set_header ''X-RateLimit-Limit''
                                      (show_int effectiveMaxRequests) c1))
                             else c1)
                   in (Inr None, c2, s2))))"

text \<open>
  The body of the inner \<^verbatim>\<open>try\<close>: parse the Rollback Record, and when it names a key and a
  member, remove that member with ZREM and delete the record.  Destructuring \<^verbatim>\<open>null\<close> raises
  a TypeError.  The record is only ever written by \<open>rateLimiter_before\<close>, with string
  fields; a field that is not a string is treated like a missing one.
\<close>

definition rollback :: "payload \<Rightarrow> string \<Rightarrow> store \<Rightarrow> unit result" where
  "rollback requestInfo requestKey s =
     (case JSON_parse requestInfo of
        Inl e \<Rightarrow> (Inl e, s)
      | Inr parsed \<Rightarrow>
          if parsed = JNull then (Inl TypeError, s)
          else (case (json_field parsed ''key'', json_field parsed ''memberId'') of
                  (Some (JStr key), Some (JStr storedMemberId)) \<Rightarrow>
                    if key \<noteq> [] \<and> storedMemberId \<noteq> [] then
                      (case zrem key storedMemberId s of
                         (Inl e, s1) \<Rightarrow> (Inl e, s1)
                       | (Inr n, s1) \<Rightarrow>
                           (case deleteKey requestKey s1 of
                              (Inl e, s2) \<Rightarrow> (Inl e, s2)
                            | (Inr n', s2) \<Rightarrow> (Inr (), s2)))
                    else (Inr (), s)
                | _ \<Rightarrow> (Inr (), s)))"

text \<open>
  What \<^verbatim>\<open>await next()\<close> yields.  \<^verbatim>\<open>next\<close> is Hono's \<^verbatim>\<open>Next\<close>, of type
  \<^verbatim>\<open>() => Promise<void>\<close>: the awaited value is not a \<^verbatim>\<open>Response\<close> (the response of the
  downstream is \<^verbatim>\<open>c.res\<close>, which the logger middleware of the repository reads after its
  own \<^verbatim>\<open>await next()\<close>), and the property \<^verbatim>\<open>status\<close> read from it is not a number.
  \<open>status_number\<close> is the number that \<^verbatim>\<open>response.status\<close> holds, if it holds one; the
  comparisons \<^verbatim>\<open><\<close> and \<^verbatim>\<open>>=\<close> of JavaScript are false when an operand is not a number.
\<close>

type_synonym awaited = unit

definition status_number :: "awaited \<Rightarrow> int option" where
  "status_number r = None"

definition js_less :: "int option \<Rightarrow> int \<Rightarrow> bool" where
  "js_less a b = (case a of None \<Rightarrow> False | Some x \<Rightarrow> x < b)"

definition js_greater_eq :: "int option \<Rightarrow> int \<Rightarrow> bool" where
  "js_greater_eq a b = (case a of None \<Rightarrow> False | Some x \<Rightarrow> x \<ge> b)"

text \<open>
  The part after \<^verbatim>\<open>const response = await next()\<close>: the skip logic.  An error of
  \<^verbatim>\<open>getValue\<close> leaves through the outer \<^verbatim>\<open>catch\<close>; an error inside the inner \<^verbatim>\<open>try\<close> is
  logged and dropped.  The function returns \<^verbatim>\<open>response\<close>.
\<close>

definition rateLimiter_after ::
    "rate_limit_config \<Rightarrow> env \<Rightarrow> awaited \<Rightarrow> store \<Rightarrow> awaited result" where
  "rateLimiter_after cfg ev resp s =
     (if (skipSuccessfulRequests cfg \<and> js_less (status_number resp) 400) \<or>
         (skipFailedRequests cfg \<and> js_greater_eq (status_number resp) 400)
      then (case getValue (request_key (env_nanoid ev)) s of
              (Inl e, s1) \<Rightarrow> (Inl e, s1)
            | (Inr None, s1) \<Rightarrow> (Inr resp, s1)
            | (Inr (Some requestInfo), s1) \<Rightarrow>
                if \<not> truthy_text requestInfo then (Inr resp, s1)
                else (case rollback requestInfo (request_key (env_nanoid ev)) s1 of
                        (Inl e, s2) \<Rightarrow> (Inr resp, s2)
                      | (Inr u, s2) \<Rightarrow> (Inr resp, s2)))
      else (Inr resp, s))"

text \<open>
  The middleware.  (\<^verbatim>\<open>ipRateLimiter\<close> and \<^verbatim>\<open>uploadRateLimiter\<close> are this function at a
  configuration of their own.)  \<open>next\<close> is the rest of the pipeline: it resolves, having
  put its response into the context, or raises, and may change the store.  The middleware
  returns a \<^verbatim>\<open>Response\<close> of its own (\<open>Some\<close>: the 429 or the custom handler's), or what
  \<^verbatim>\<open>next()\<close> resolved to (\<open>None\<close>: the response is the one in the context).  A
  whitelisted request returns the promise of \<^verbatim>\<open>next()\<close> without awaiting it, so the outer
  \<^verbatim>\<open>catch\<close> does not see its errors; every other error reaches the outer \<^verbatim>\<open>catch\<close>, which
  runs \<^verbatim>\<open>next()\<close>.
\<close>

type_synonym downstream = "hono_context \<Rightarrow> store \<Rightarrow> (error + awaited) \<times> hono_context \<times> store"

definition returned_next ::
    "(error + awaited) \<times> hono_context \<times> store \<Rightarrow> (error + response option) \<times> hono_context \<times> store" where
  "returned_next r =
     (case r of
        (Inl e, c, s) \<Rightarrow> (Inl e, c, s)
      | (Inr u, c, s) \<Rightarrow> (Inr None, c, s))"

definition rateLimiter ::
    "rate_limit_config \<Rightarrow> env \<Rightarrow> downstream \<Rightarrow> hono_context \<Rightarrow> store
       \<Rightarrow> (error + response option) \<times> hono_context \<times> store" where
  "rateLimiter cfg ev next c s =
     (if (case whitelist cfg of None \<Rightarrow> False | Some wl \<Rightarrow> getClientIp c \<in> set wl)
      then returned_next (next c s)
      else
        (case (case rateLimiter_before cfg ev c s of
                 (Inl e, c1, s1) \<Rightarrow> (Inl e, c1, s1)
               | (Inr (Some r), c1, s1) \<Rightarrow> (Inr (Some r), c1, s1)
               | (Inr None, c1, s1) \<Rightarrow>
                   (case next c1 s1 of
                      (Inl e, c2, s2) \<Rightarrow> (Inl e, c2, s2)
                    | (Inr resp, c2, s2) \<Rightarrow>
                        (case rateLimiter_after cfg ev resp s2 of
                           (Inl e, s3) \<Rightarrow> (Inl e, c2, s3)
                         | (Inr resp', s3) \<Rightarrow> (Inr None, c2, s3)))) of
           (Inl e, c', s') \<Rightarrow> returned_next (next c' s')
         | (Inr r, c', s') \<Rightarrow> (Inr r, c', s')))"

subsection \<open>Observations and scenarios used in the statements\<close>

text \<open>The sorted set held at a key (empty when the key is absent).\<close>

definition zset_at :: "store \<Rightarrow> string \<Rightarrow> zset" where
  "zset_at s k = (case lookup s k of Some (RZSet zs, d) \<Rightarrow> zs | _ \<Rightarrow> [])"

definition holds_string :: "store \<Rightarrow> string \<Rightarrow> bool" where
  "holds_string s k = (case lookup s k of Some (RString t, d) \<Rightarrow> True | _ \<Rightarrow> False)"

text \<open>The members that a purge at time \<open>now\<close> leaves: those stamped after \<open>now - w\<close>.\<close>

definition survivors :: "int \<Rightarrow> int \<Rightarrow> zset \<Rightarrow> zset" where
  "survivors now w zs = filter (\<lambda>p. now - w < snd p) zs"

definition purged :: "string \<Rightarrow> int \<Rightarrow> int \<Rightarrow> store \<Rightarrow> store" where
  "purged key now w s =
     (case lookup s key of
        Some (RZSet zs, d) \<Rightarrow> store_zset key (survivors now w zs) d s
      | _ \<Rightarrow> s)"

text \<open>The Rollback Record that the middleware writes for an admitted request.\<close>

definition request_record :: "string \<Rightarrow> int \<Rightarrow> string \<Rightarrow> payload" where
  "request_record identifier stamp mid =
     JSON_stringify (JObj [(''identifier'', JStr identifier), (''timestamp'', JNum stamp),
                           (''memberId'', JStr mid), (''key'', JStr (''rate_limit:'' @ identifier))])"

text \<open>The store with one member taken out of the sorted set at a key.\<close>

definition member_removed :: "string \<Rightarrow> string \<Rightarrow> store \<Rightarrow> store" where
  "member_removed key m s =
     (case lookup s key of
        Some (RZSet zs, d) \<Rightarrow> store_zset key (filter (\<lambda>p. fst p \<noteq> m) zs) d s
      | _ \<Rightarrow> s)"

text \<open>The key, if present, is still there when the server's clock shows \<open>t\<close>.\<close>

definition outlives :: "store \<Rightarrow> string \<Rightarrow> int \<Rightarrow> bool" where
  "outlives s k t = (case lookup s k of Some (v, Some dl) \<Rightarrow> t < dl | _ \<Rightarrow> True)"

text \<open>
  A sequence of calls for one identifier.  Each call is the pair of its clock reading and
  its random suffix; the server's clock shows the same time when the call arrives.
\<close>

fun run_calls ::
    "string \<Rightarrow> int \<Rightarrow> int \<Rightarrow> (int \<times> string) list \<Rightarrow> store \<Rightarrow> rate_limit_result list \<times> store" where
  "run_calls identifier maxReq w [] s = ([], s)"
| "run_calls identifier maxReq w (call # calls) s =
     (case checkRateLimit identifier maxReq w (fst call) (snd call) (tick (fst call) s) of
        (r, s1) \<Rightarrow>
          (case run_calls identifier maxReq w calls s1 of
             (rs, s2) \<Rightarrow> (r # rs, s2)))"

text \<open>
  Two successive calls of \<open>cache\<close> with the same arguments; the server's clock shows \<open>t2\<close>
  when the second call arrives.
\<close>

definition cache_twice ::
    "string \<Rightarrow> 'w fetcher \<Rightarrow> int option \<Rightarrow> int \<Rightarrow> store \<Rightarrow> 'w
       \<Rightarrow> ((error + jsval) \<times> (error + jsval)) \<times> store \<times> 'w" where
  "cache_twice key fetcher ttlArg t2 s w =
     (case cache key fetcher ttlArg s w of
        (r1, s1, w1) \<Rightarrow>
          (case cache key fetcher ttlArg (tick t2 s1) w1 of
             (r2, s2, w2) \<Rightarrow> ((r1, r2), s2, w2)))"

text \<open>A fetcher that resolves to \<open>v\<close> and counts its invocations.\<close>

definition counting_fetcher :: "jsval \<Rightarrow> nat fetcher" where
  "counting_fetcher v n = (Inr v, Suc n)"

text \<open>A store with no keys and no failures to come, at server time \<open>t\<close>.\<close>

definition empty_store :: "int \<Rightarrow> store" where
  "empty_store t = \<lparr>entries = fmempty, clock = t, faults = [], glob = (\<lambda>pat k. True)\<rparr>"

text \<open>
  A request through the middleware, configured to skip successful requests: client
  10.0.0.7 asks for /api/files at time 5000, one earlier admission of the same client and
  path is in the window, and the downstream answers 200 after 50 milliseconds.
\<close>

definition demo_config :: rate_limit_config where
  "demo_config = default_config\<lparr>skipSuccessfulRequests := True\<rparr>"

definition demo_context :: hono_context where
  "demo_context =
     \<lparr>req_headers = [(''x-real-ip'', ''10.0.0.7'')], req_path = ''/api/files'',
      res_headers = [], vars = [], c_res = None\<rparr>"

definition demo_env :: env where
  "demo_env =
     \<lparr>env_now = 5000, env_random = ''abc'', env_nanoid = ''r1'', env_stamp = 5000,
      env_header_now = 5001\<rparr>"

definition demo_store :: store where
  "demo_store =
     put (rate_limit_key ''10.0.0.7:/api/files'') (RZSet [(''4000-zzz'', 4000)], Some 65000)
       (empty_store 5000)"

definition demo_next :: downstream where
  "demo_next c s = (Inr (), c\<lparr>c_res := Some \<lparr>status = 200, body = JNull\<rparr>\<rparr>, tick 5050 s)"


section \<open>Properties\<close>

subsection \<open>The store\<close>

lemma lookup_put [simp]: "lookup (put k e s) k' = (if k' = k then Some e else lookup s k')"
  by (simp add: lookup_def put_def)

lemma lookup_drop_key [simp]: "lookup (drop_key k s) k' = (if k' = k then None else lookup s k')"
  by (simp add: lookup_def drop_key_def)

lemma lookup_tick:
  "lookup (tick t s) k =
     (case lookup s k of
        None \<Rightarrow> None
      | Some (v, d) \<Rightarrow>
          (case d of None \<Rightarrow> Some (v, d) | Some dl \<Rightarrow> if t < dl then Some (v, d) else None))"
  by (auto simp add: lookup_def tick_def live_def split: option.splits)

lemma faults_simps [simp]:
  "faults (put k e s) = faults s"
  "faults (drop_key k s) = faults s"
  "faults (tick t s) = faults s"
  "faults (store_zset k zs d s) = faults s"
  by (simp_all add: put_def drop_key_def tick_def store_zset_def)

lemma clock_simps [simp]:
  "clock (put k e s) = clock s"
  "clock (drop_key k s) = clock s"
  "clock (tick t s) = t"
  "clock (store_zset k zs d s) = clock s"
  by (simp_all add: put_def drop_key_def tick_def store_zset_def)

lemma lookup_store_zset [simp]:
  "lookup (store_zset k zs d s) k' =
     (if k' = k then (if zs = [] then None else Some (RZSet zs, d)) else lookup s k')"
  by (simp add: store_zset_def)

lemma put_put [simp]: "put k e (put k e' s) = put k e s"
  by (simp add: put_def)

lemma put_drop_key [simp]: "put k e (drop_key k s) = put k e s"
  by (simp add: put_def drop_key_def fmap_ext)

lemma drop_key_put [simp]: "drop_key k (put k e s) = drop_key k s"
  by (simp add: put_def drop_key_def fmap_ext)

lemma drop_key_drop_key [simp]: "drop_key k (drop_key k s) = drop_key k s"
  by (simp add: drop_key_def)

lemma drop_key_absent: "lookup s k = None \<Longrightarrow> drop_key k s = s"
  by (simp add: drop_key_def lookup_def fmap_ext)

lemma store_eqI:
  fixes s s' :: store
  assumes "\<And>k. lookup s k = lookup s' k" "clock s = clock s'" "faults s = faults s'"
    and "glob s = glob s'"
  shows "s = s'"
proof -
  have "entries s = entries s'"
    using assms(1) by (intro fmap_ext) (simp add: lookup_def)
  with assms(2-4) show ?thesis by simp
qed

lemma glob_simps [simp]:
  "glob (put k e s) = glob s"
  "glob (drop_key k s) = glob s"
  "glob (tick t s) = glob s"
  by (simp_all add: put_def drop_key_def tick_def)

lemma empty_store_simps [simp]:
  "faults (empty_store t) = []"
  "clock (empty_store t) = t"
  "lookup (empty_store t) k = None"
  by (simp_all add: empty_store_def lookup_def)

lemma tick_empty_store [simp]: "tick t (empty_store t0) = empty_store t"
  by (rule store_eqI) (simp_all add: lookup_tick, simp add: empty_store_def)

lemma tick_put_live:
  assumes "case d of None \<Rightarrow> True | Some dl \<Rightarrow> t < dl"
  shows "tick t (put k (v, d) s) = put k (v, d) (tick t s)"
  using assms by (intro store_eqI) (auto simp add: lookup_tick split: option.splits)

lemma holds_string_tick: "\<not> holds_string s k \<Longrightarrow> \<not> holds_string (tick t s) k"
  by (auto simp add: holds_string_def lookup_tick split: option.splits rvalue.splits if_splits)

lemma lookup_tick_outlives: "outlives s k t \<Longrightarrow> lookup (tick t s) k = lookup s k"
  by (auto simp add: outlives_def lookup_tick split: option.splits)

lemma zset_at_tick: "outlives s k t \<Longrightarrow> zset_at (tick t s) k = zset_at s k"
  by (simp add: zset_at_def lookup_tick_outlives)

lemma zset_at_put [simp]: "zset_at (put k (RZSet zs, d) s) k = zs"
  by (simp add: zset_at_def)

lemma zset_at_empty_store [simp]: "zset_at (empty_store t) k = []"
  by (simp add: zset_at_def)

lemma holds_string_put_zset [simp]: "\<not> holds_string (put k (RZSet zs, d) s) k"
  by (simp add: holds_string_def)

lemma holds_string_empty_store [simp]: "\<not> holds_string (empty_store t) k"
  by (simp add: holds_string_def)

lemma purged_put [simp]:
  "purged k now w (put k (RZSet zs, d) s) = store_zset k (survivors now w zs) d s"
  by (simp add: purged_def store_zset_def)

lemma zset_at_purged:
  "\<not> holds_string s k \<Longrightarrow> zset_at (purged k now w s) k = survivors now w (zset_at s k)"
  by (auto simp add: purged_def zset_at_def holds_string_def survivors_def
      split: option.splits rvalue.splits)

lemma zset_add_fresh: "m \<notin> fst ` set zs \<Longrightarrow> zset_add m sc zs = zs @ [(m, sc)]"
  by (simp add: zset_add_def)

lemma set_zset_add: "set (zset_add m sc zs) \<subseteq> insert (m, sc) (set zs)"
  by (auto simp add: zset_add_def)

lemma survivors_all: "\<forall>p\<in>set zs. now - w < snd p \<Longrightarrow> survivors now w zs = zs"
  by (simp add: survivors_def)

text \<open>A command on a store with an empty failure schedule just runs.\<close>

lemma command_quiet: "faults s = [] \<Longrightarrow> command run s = run s"
  by (simp add: command_def pop_fault_def)

lemma zset_add_nonempty [simp]: "zset_add m sc zs \<noteq> []"
  by (auto simp add: zset_add_def)

lemma ceil_div_1000_bound: "w \<le> ceil_div_1000 w * 1000"
proof -
  have "(- w) div 1000 * 1000 + (- w) mod 1000 = - w"
    by (rule div_mult_mod_eq)
  moreover have "0 \<le> (- w) mod 1000" by simp
  ultimately show ?thesis unfolding ceil_div_1000_def by linarith
qed

lemma zslice_first: "zslice 0 0 xs = take 1 xs"
  by (cases xs) (simp_all add: zslice_def Let_def)

lemma zorder_set [simp]: "set (zorder zs) = set zs"
  by (simp add: zorder_def)

lemma zorder_empty [simp]: "zorder [] = []"
  by (simp add: zorder_def)

lemma zorder_Nil [simp]: "zorder zs = [] \<longleftrightarrow> zs = []"
  by (metis zorder_set set_empty)

lemma zorder_hd_least:
  assumes "zorder zs = p # ps" "q \<in> set zs"
  shows "snd p \<le> snd q"
proof -
  have "sorted (map (\<lambda>p. (snd p, fst p)) (zorder zs))"
    by (simp add: zorder_def)
  moreover have "q \<in> set (zorder zs)" using assms(2) by simp
  ultimately have "(snd p, fst p) \<le> (snd q, fst q)"
    using assms(1) by auto
  then show ?thesis by (auto simp add: less_eq_prod_def)
qed

lemma zorder_hd_Min:
  assumes "zorder zs = p # ps"
  shows "snd p = Min (snd ` set zs)"
proof -
  have "p \<in> set zs" using assms by (metis list.set_intros(1) zorder_set)
  then show ?thesis
    using zorder_hd_least [OF assms]
    by (intro Min_eqI [symmetric]) auto
qed

subsection \<open>The engine on a store that answers\<close>

text \<open>
  With no failure to come and a key that does not hold a string, the \<^verbatim>\<open>try\<close> block takes
  one of two paths, decided by the number of members that survive the purge.
\<close>

lemma try_allowed:
  assumes "faults s = []" "\<not> holds_string s key"
    and "int (length (survivors now w (zset_at s key))) < maxReq"
  shows "checkRateLimit_try key maxReq w now rnd s =
     (Inr \<lparr>allowed = True,
           remaining = maxReq - int (length (survivors now w (zset_at s key))) - 1,
           resetAt = now + w, memberId = Some (member_id now rnd)\<rparr>,
      if ceil_div_1000 w + 1 \<le> 0 then drop_key key s
      else put key (RZSet (zset_add (member_id now rnd) now (survivors now w (zset_at s key))),
                    Some (clock s + (ceil_div_1000 w + 1) * 1000)) s)"
proof (cases "lookup s key")
  case None
  with assms show ?thesis
    by (simp add: checkRateLimit_try_def zremrangebyscore_def zcard_def zadd_def expire_def
      command_quiet zset_at_def survivors_def holds_string_def Let_def drop_key_absent)
next
  case (Some e)
  then obtain zs d where e: "lookup s key = Some (RZSet zs, d)"
    using assms(2) by (cases e; cases "fst e") (auto simp add: holds_string_def)
  with assms show ?thesis
    by (simp add: checkRateLimit_try_def zremrangebyscore_def zcard_def zadd_def expire_def
      command_quiet zset_at_def survivors_def holds_string_def Let_def above_def below_def
      not_le store_zset_def)
qed

lemma try_denied:
  assumes "faults s = []" "\<not> holds_string s key"
    and "\<not> int (length (survivors now w (zset_at s key))) < maxReq"
  shows "checkRateLimit_try key maxReq w now rnd s =
     (Inr \<lparr>allowed = False, remaining = 0,
           resetAt = (case zslice 0 0 (zorder (survivors now w (zset_at s key))) of
                        [] \<Rightarrow> now + w | p # ps \<Rightarrow> snd p + w),
           memberId = None\<rparr>,
      purged key now w s)"
proof (cases "lookup s key")
  case None
  with assms show ?thesis
    by (simp add: checkRateLimit_try_def zremrangebyscore_def zcard_def zrange_withscores_def
      command_quiet zset_at_def survivors_def holds_string_def Let_def purged_def zslice_def
      zorder_def)
next
  case (Some e)
  then obtain zs d where e: "lookup s key = Some (RZSet zs, d)"
    using assms(2) by (cases e; cases "fst e") (auto simp add: holds_string_def)
  with assms show ?thesis
    by (auto simp add: checkRateLimit_try_def zremrangebyscore_def zcard_def
      zrange_withscores_def command_quiet zset_at_def survivors_def holds_string_def Let_def
      above_def below_def not_le purged_def zslice_def zorder_def store_zset_def)
qed


lemma zcard_nonneg: "zcard k s = (Inr c, s') \<Longrightarrow> 0 \<le> c"
  by (auto simp add: zcard_def command_def pop_fault_def
      split: prod.splits option.splits rvalue.splits bool.splits list.splits if_splits)

lemma try_result_shape:
  assumes "checkRateLimit_try key maxReq w now rnd s = (Inr r, s')"
  shows "(allowed r \<and> 0 \<le> remaining r \<and> remaining r < maxReq) \<or>
         (\<not> allowed r \<and> remaining r = 0)"
  using assms
  by (auto simp add: checkRateLimit_try_def Let_def dest!: zcard_nonneg
      split: prod.splits sum.splits if_splits)

text \<open>Both paths in one equation, for stepping through concrete scenarios.\<close>

lemma checkRateLimit_step:
  assumes "faults s = []" "\<not> holds_string s (rate_limit_key identifier)"
  shows "checkRateLimit identifier maxReq w now rnd s =
     (if int (length (survivors now w (zset_at s (rate_limit_key identifier)))) < maxReq
      then (\<lparr>allowed = True,
             remaining = maxReq
               - int (length (survivors now w (zset_at s (rate_limit_key identifier)))) - 1,
             resetAt = now + w, memberId = Some (member_id now rnd)\<rparr>,
            if ceil_div_1000 w + 1 \<le> 0 then drop_key (rate_limit_key identifier) s
            else put (rate_limit_key identifier)
                   (RZSet (zset_add (member_id now rnd) now
                            (survivors now w (zset_at s (rate_limit_key identifier)))),
                    Some (clock s + (ceil_div_1000 w + 1) * 1000)) s)
      else (\<lparr>allowed = False, remaining = 0,
             resetAt = (case zslice 0 0 (zorder (survivors now w
                                (zset_at s (rate_limit_key identifier)))) of
                          [] \<Rightarrow> now + w | p # ps \<Rightarrow> snd p + w),
             memberId = None\<rparr>,
            purged (rate_limit_key identifier) now w s))"
  using try_allowed [OF assms, of now w maxReq rnd] try_denied [OF assms, of now w maxReq rnd]
  by (simp add: checkRateLimit_def)

subsection \<open>Failure of the store during a check\<close>

text \<open>
  Whatever error leaves the \<^verbatim>\<open>try\<close> block, the caller sees the fail-open answer; and when
  the very first command fails, the data of the store is as before.
\<close>

lemma checkRateLimit_fail_open:
  assumes "fst (checkRateLimit_try (rate_limit_key identifier) maxReq w now rnd s) = Inl e"
  shows "fst (checkRateLimit identifier maxReq w now rnd s) =
     \<lparr>allowed = True, remaining = maxReq, resetAt = now + w, memberId = None\<rparr>"
  using assms by (auto simp add: checkRateLimit_def split: prod.splits sum.splits)

lemma checkRateLimit_first_command_fails:
  assumes "faults s = True # fs"
  shows "checkRateLimit identifier maxReq w now rnd s =
     (\<lparr>allowed = True, remaining = maxReq, resetAt = now + w, memberId = None\<rparr>,
      s\<lparr>faults := fs\<rparr>)"
  using assms
  by (simp add: checkRateLimit_def checkRateLimit_try_def zremrangebyscore_def command_def
      pop_fault_def)

subsection \<open>A run of admitted calls\<close>

lemma run_calls_gen:
  assumes "faults s = []" "\<not> holds_string s (rate_limit_key identifier)"
    and "zset_at s (rate_limit_key identifier) = zs"
    and "\<forall>t<hi. outlives s (rate_limit_key identifier) t"
    and "\<forall>p\<in>set zs. hi - w \<le> snd p"
    and "\<forall>c\<in>set calls. hi - w \<le> fst c \<and> fst c < hi"
    and "distinct (map (\<lambda>c. member_id (fst c) (snd c)) calls)"
    and "\<forall>c\<in>set calls. member_id (fst c) (snd c) \<notin> fst ` set zs"
    and "int (length zs) + int (length calls) \<le> maxReq"
  shows "fst (run_calls identifier maxReq w calls s) =
     map (\<lambda>(i, c). \<lparr>allowed = True, remaining = maxReq - int i - 1, resetAt = fst c + w,
                      memberId = Some (member_id (fst c) (snd c))\<rparr>)
         (enumerate (length zs) calls)"
  using assms
proof (induction calls arbitrary: s zs)
  case Nil
  then show ?case by simp
next
  case (Cons c calls)
  let ?key = "rate_limit_key identifier"
  let ?t = "fst c"
  let ?m = "member_id (fst c) (snd c)"
  let ?s0 = "tick ?t s"
  have t: "hi - w \<le> ?t" "?t < hi" using Cons.prems(6) by auto
  then have w: "0 < w" by simp
  have q0: "faults ?s0 = []" using Cons.prems(1) by simp
  have h0: "\<not> holds_string ?s0 ?key" using Cons.prems(2) by (rule holds_string_tick)
  have z0: "zset_at ?s0 ?key = zs"
    using Cons.prems(3,4) t by (simp add: zset_at_tick)
  have sv: "survivors ?t w zs = zs"
    using Cons.prems(5) t by (intro survivors_all) auto
  have cnt: "int (length (survivors ?t w (zset_at ?s0 ?key))) < maxReq"
    using Cons.prems(9) by (simp add: z0 sv)
  have fresh: "?m \<notin> fst ` set zs" using Cons.prems(8) by simp
  have ttl: "\<not> ceil_div_1000 w + 1 \<le> 0"
    using ceil_div_1000_bound [of w] w by linarith
  let ?dl = "?t + (ceil_div_1000 w + 1) * 1000"
  let ?s1 = "put ?key (RZSet (zs @ [(?m, ?t)]), Some ?dl) ?s0"
  have step: "checkRateLimit identifier maxReq w ?t (snd c) ?s0 =
      (\<lparr>allowed = True, remaining = maxReq - int (length zs) - 1, resetAt = ?t + w,
        memberId = Some ?m\<rparr>, ?s1)"
    using try_allowed [OF q0 h0 cnt, of "snd c"] ttl fresh
    by (simp add: checkRateLimit_def z0 sv zset_add_fresh)
  have dl: "hi \<le> ?dl" using ceil_div_1000_bound [of w] t by (simp add: distrib_right)
  have IH: "fst (run_calls identifier maxReq w calls ?s1) =
     map (\<lambda>(i, c). \<lparr>allowed = True, remaining = maxReq - int i - 1, resetAt = fst c + w,
                      memberId = Some (member_id (fst c) (snd c))\<rparr>)
         (enumerate (length (zs @ [(?m, ?t)])) calls)"
  proof (rule Cons.IH)
    show "faults ?s1 = []" using q0 by simp
    show "\<not> holds_string ?s1 ?key" by simp
    show "zset_at ?s1 ?key = zs @ [(?m, ?t)]" by simp
    show "\<forall>t<hi. outlives ?s1 ?key t" using dl by (simp add: outlives_def)
    show "\<forall>p\<in>set (zs @ [(?m, ?t)]). hi - w \<le> snd p" using Cons.prems(5) t by auto
    show "\<forall>c\<in>set calls. hi - w \<le> fst c \<and> fst c < hi" using Cons.prems(6) by simp
    show "distinct (map (\<lambda>c. member_id (fst c) (snd c)) calls)" using Cons.prems(7) by simp
    show "\<forall>c\<in>set calls. member_id (fst c) (snd c) \<notin> fst ` set (zs @ [(?m, ?t)])"
      using Cons.prems(7,8) by (force simp add: image_iff)
    show "int (length (zs @ [(?m, ?t)])) + int (length calls) \<le> maxReq"
      using Cons.prems(9) by simp
  qed
  show ?case
    using step IH by (cases "run_calls identifier maxReq w calls ?s1") simp
qed


text \<open>Stepping through a concrete scenario: the rewrite rules that run it.\<close>

lemmas scenario_eval =
  checkRateLimit_step tick_put_live survivors_def zset_add_def member_id_def show_int_def
  show_nat.simps ceil_div_1000_def zslice_def zorder_def store_zset_def Let_def


section \<open>The claims\<close>

subsection \<open>C1: a run of at most \<open>maxRequests\<close> calls inside one window\<close>

text \<open>
  C1: in a run of \<open>n \<le> maxRequests\<close> calls of \<^verbatim>\<open>checkRateLimit\<close> for one identifier, all
  within \<open>windowMs\<close> of the first, with no store error and no prior entry, every call is
  allowed and the i-th call returns \<open>remaining = maxRequests - i\<close>.  The code counts on
  the member of each admission being unique, and builds it from the clock reading and a
  random suffix.  At the input below the run has three calls on a quota of three; the
  first two fall into millisecond 0 and draw the suffix \<open>x\<close>, so the ZADD of the second
  adds nothing, and the third call answers \<open>remaining = 1\<close> where C1 says \<open>3 - 3\<close>.
\<close>

theorem checkRateLimit_sequence_collision:
  "faults (empty_store 0) = [] \<and> lookup (empty_store 0) (rate_limit_key ''A'') = None \<and>
   \<not> remaining (fst (run_calls ''A'' 3 1000 [(0, ''x''), (0, ''x''), (100, ''y'')] (empty_store 0)) ! 2)
       = 3 - 3"
  by (simp add: scenario_eval)

text \<open>With the same collision, three requests are admitted on a quota of two.\<close>

lemma checkRateLimit_collision_over_admits:
  "map allowed (fst (run_calls ''A'' 2 1000 [(0, ''x''), (0, ''x''), (0, ''y'')] (empty_store 0)))
     = [True, True, True]"
  by (simp add: scenario_eval)

text \<open>
  When the members generated in the run are pairwise distinct, the run is as C1 says
  (below \<open>i\<close> counts from 0, hence \<open>int i + 1\<close>).
\<close>

lemma run_calls_distinct_members:
  assumes "faults s = []" "lookup s (rate_limit_key identifier) = None"
    and "int (length calls) \<le> maxReq"
    and "\<forall>c\<in>set calls. fst (hd calls) \<le> fst c \<and> fst c < fst (hd calls) + w"
    and "distinct (map (\<lambda>c. member_id (fst c) (snd c)) calls)"
  shows "length (fst (run_calls identifier maxReq w calls s)) = length calls \<and>
         (\<forall>i<length calls.
            fst (run_calls identifier maxReq w calls s) ! i =
              \<lparr>allowed = True, remaining = maxReq - (int i + 1),
               resetAt = fst (calls ! i) + w,
               memberId = Some (member_id (fst (calls ! i)) (snd (calls ! i)))\<rparr>)"
proof -
  let ?key = "rate_limit_key identifier"
  have "fst (run_calls identifier maxReq w calls s) =
     map (\<lambda>(i, c). \<lparr>allowed = True, remaining = maxReq - int i - 1, resetAt = fst c + w,
                      memberId = Some (member_id (fst c) (snd c))\<rparr>)
         (enumerate (length ([] :: zset)) calls)"
  proof (rule run_calls_gen [where hi = "fst (hd calls) + w"])
    show "faults s = []" by fact
    show "\<not> holds_string s ?key" using assms(2) by (simp add: holds_string_def)
    show "zset_at s ?key = []" using assms(2) by (simp add: zset_at_def)
    show "\<forall>t<fst (hd calls) + w. outlives s ?key t" using assms(2) by (simp add: outlives_def)
    show "\<forall>p\<in>set ([] :: zset). fst (hd calls) + w - w \<le> snd p" by simp
    show "\<forall>c\<in>set calls. fst (hd calls) + w - w \<le> fst c \<and> fst c < fst (hd calls) + w"
      using assms(4) by simp
    show "distinct (map (\<lambda>c. member_id (fst c) (snd c)) calls)" by fact
    show "\<forall>c\<in>set calls. member_id (fst c) (snd c) \<notin> fst ` set ([] :: zset)" by simp
    show "int (length ([] :: zset)) + int (length calls) \<le> maxReq" using assms(3) by simp
  qed
  then show ?thesis
    by (simp add: nth_enumerate_eq algebra_simps)
qed

subsection \<open>C2: the call that finds the window full\<close>

text \<open>
  C2, as the specification states it, holds whenever the window set is full.  It does not
  when the store fails during the call: below the window holds three members on a quota
  of three, ZREMRANGEBYSCORE and ZCARD succeed, and the ZRANGE that reads the oldest
  member raises.  The call fails open: \<open>allowed = True\<close> with \<open>remaining = 3\<close>.
\<close>

theorem checkRateLimit_full_window_store_fails:
  "fst (checkRateLimit ''A'' 3 1000 300 ''w''
         ((put (rate_limit_key ''A'')
             (RZSet [(''0-x'', 0), (''100-y'', 100), (''200-z'', 200)], Some 2200)
             (empty_store 300))\<lparr>faults := [False, False, True]\<rparr>))
     = \<lparr>allowed = True, remaining = 3, resetAt = 1300, memberId = None\<rparr>"
  by (simp add: checkRateLimit_def checkRateLimit_try_def rate_limit_key_def empty_store_def
      zremrangebyscore_def zcard_def zrange_withscores_def command_def pop_fault_def
      lookup_def put_def store_zset_def above_def below_def Let_def)

text \<open>
  C2 (amended): if, when \<^verbatim>\<open>checkRateLimit\<close> is called, the window set of the identifier
  holds at least \<open>maxRequests\<close> members stamped after \<open>now - windowMs\<close>, and no store
  operation of the call raises (the store answers, and the key holds a sorted set), the
  call returns \<open>allowed = False\<close>, \<open>remaining = 0\<close> and no member, with \<open>resetAt\<close> the
  least timestamp among the surviving members plus \<open>windowMs\<close>; when no member survives
  (nothing can be read as the oldest), \<open>resetAt\<close> is \<open>now + windowMs\<close>.
\<close>

theorem checkRateLimit_denied:
  assumes "faults s = []" "\<not> holds_string s (rate_limit_key identifier)"
    and "maxReq \<le> int (length (survivors now w (zset_at s (rate_limit_key identifier))))"
  shows "fst (checkRateLimit identifier maxReq w now rnd s) =
     \<lparr>allowed = False, remaining = 0,
      resetAt = (if survivors now w (zset_at s (rate_limit_key identifier)) = [] then now + w
                 else Min (snd ` set (survivors now w (zset_at s (rate_limit_key identifier)))) + w),
      memberId = None\<rparr>"
proof -
  let ?zs = "survivors now w (zset_at s (rate_limit_key identifier))"
  have "\<not> int (length ?zs) < maxReq" using assms(3) by simp
  note d = try_denied [OF assms(1,2) this, of rnd]
  show ?thesis
  proof (cases "zorder ?zs")
    case Nil
    then have "?zs = []" by simp
    with Nil show ?thesis using d by (simp add: checkRateLimit_def zslice_first)
  next
    case (Cons p ps)
    then have "?zs \<noteq> []" by (metis list.discI zorder_Nil)
    with Cons zorder_hd_Min [OF Cons] show ?thesis
      using d by (simp add: checkRateLimit_def zslice_first)
  qed
qed

text \<open>The scenario of the specification: three members at 0, 100, 200 and a call at 300.\<close>

theorem checkRateLimit_denied_witness:
  "faults (put (rate_limit_key ''A'')
             (RZSet [(''0-x'', 0), (''100-y'', 100), (''200-z'', 200)], Some 2200)
             (empty_store 300)) = [] \<and>
   \<not> holds_string (put (rate_limit_key ''A'')
             (RZSet [(''0-x'', 0), (''100-y'', 100), (''200-z'', 200)], Some 2200)
             (empty_store 300)) (rate_limit_key ''A'') \<and>
   fst (checkRateLimit ''A'' 3 1000 300 ''w''
         (put (rate_limit_key ''A'')
             (RZSet [(''0-x'', 0), (''100-y'', 100), (''200-z'', 200)], Some 2200)
             (empty_store 300)))
     = \<lparr>allowed = False, remaining = 0, resetAt = 1000, memberId = None\<rparr>"
proof -
  let ?s = "put (rate_limit_key ''A'')
             (RZSet [(''0-x'', 0), (''100-y'', 100), (''200-z'', 200)], Some 2200)
             (empty_store 300)"
  have h1: "faults ?s = []" by simp
  have h2: "\<not> holds_string ?s (rate_limit_key ''A'')" by simp
  have h3: "3 \<le> int (length (survivors 300 1000 (zset_at ?s (rate_limit_key ''A''))))"
    by (simp add: survivors_def)
  from checkRateLimit_denied [OF h1 h2 h3, of "''w''"]
  have "fst (checkRateLimit ''A'' 3 1000 300 ''w'' ?s)
     = \<lparr>allowed = False, remaining = 0, resetAt = 1000, memberId = None\<rparr>"
    by (simp add: survivors_def)
  with h1 h2 show ?thesis by blast
qed

subsection \<open>C3: failure of the store\<close>

text \<open>
  C3 says that when a store operation raises during \<^verbatim>\<open>checkRateLimit\<close>, the call returns
  \<open>allowed = True\<close>, \<open>remaining = maxRequests\<close>, \<open>resetAt = now + windowMs\<close> and no member,
  and that no admission record is written.  The answer is as stated
  (\<open>checkRateLimit_fail_open\<close>), and nothing is written when the first command fails
  (\<open>checkRateLimit_first_command_fails\<close>).  But when ZREMRANGEBYSCORE, ZCARD and ZADD
  succeed and EXPIRE raises, the member written by ZADD stays in the window set, without a
  deadline on the key, while the caller is told that there is no member.
\<close>

theorem checkRateLimit_expire_failure_keeps_member:
  "fst (checkRateLimit ''A'' 3 1000 0 ''x''
         ((empty_store 0)\<lparr>faults := [False, False, False, True]\<rparr>))
     = \<lparr>allowed = True, remaining = 3, resetAt = 1000, memberId = None\<rparr> \<and>
   lookup (snd (checkRateLimit ''A'' 3 1000 0 ''x''
                  ((empty_store 0)\<lparr>faults := [False, False, False, True]\<rparr>)))
          ''rate_limit:A'' = Some (RZSet [(''0-x'', 0)], None)"
  by (simp add: checkRateLimit_def checkRateLimit_try_def rate_limit_key_def empty_store_def
      zremrangebyscore_def zcard_def zadd_def expire_def command_def pop_fault_def
      lookup_def put_def member_id_def show_int_def show_nat.simps zset_add_def)

subsection \<open>C4: the window\<close>

text \<open>
  C4, as the specification states it, bounds the counted members by \<open>now\<close> from above.
  The code purges the scores up to \<open>now - windowMs\<close> and counts whatever is left.  Below, a
  first call stamps its member 100000; a second call, by a process whose clock reads
  99000, is denied with \<open>maxRequests = 1\<close> although no member lies in the interval from
  39000 (exclusive) to 99000 (inclusive).
\<close>

theorem checkRateLimit_counts_later_member:
  "\<not> allowed (fst (checkRateLimit ''A'' 1 60000 99000 ''y''
        (tick 100001 (snd (checkRateLimit ''A'' 1 60000 100000 ''x'' (empty_store 100000)))))) \<and>
   filter (\<lambda>p. 99000 - 60000 < snd p \<and> snd p \<le> 99000)
     (zset_at (tick 100001 (snd (checkRateLimit ''A'' 1 60000 100000 ''x'' (empty_store 100000))))
        (rate_limit_key ''A'')) = []"
  by (simp add: scenario_eval)

text \<open>
  C4 (amended): in every call of \<^verbatim>\<open>checkRateLimit\<close> that the store answers, the members
  with a timestamp at most \<open>windowStart = now - windowMs\<close>, the boundary included, are
  removed before counting: the decision and \<open>remaining\<close> count exactly the members stamped
  strictly after \<open>windowStart\<close>, and for a positive window no member stamped at or before
  \<open>windowStart\<close> is left in the set.  No upper bound is applied: the counted members are
  those of the half-open window from \<open>windowStart\<close> to \<open>now\<close> when no stored timestamp
  exceeds \<open>now\<close>.
\<close>

theorem checkRateLimit_window:
  assumes "faults s = []" "\<not> holds_string s (rate_limit_key identifier)"
  shows "allowed (fst (checkRateLimit identifier maxReq w now rnd s)) =
           (int (length (filter (\<lambda>p. now - w < snd p) (zset_at s (rate_limit_key identifier))))
              < maxReq) \<and>
         (allowed (fst (checkRateLimit identifier maxReq w now rnd s)) \<longrightarrow>
            remaining (fst (checkRateLimit identifier maxReq w now rnd s)) =
              maxReq - int (length (filter (\<lambda>p. now - w < snd p)
                                      (zset_at s (rate_limit_key identifier)))) - 1) \<and>
         (0 < w \<longrightarrow>
            (\<forall>p\<in>set (zset_at (snd (checkRateLimit identifier maxReq w now rnd s))
                          (rate_limit_key identifier)). now - w < snd p)) \<and>
         ((\<forall>p\<in>set (zset_at s (rate_limit_key identifier)). snd p \<le> now) \<longrightarrow>
            filter (\<lambda>p. now - w < snd p) (zset_at s (rate_limit_key identifier)) =
            filter (\<lambda>p. now - w < snd p \<and> snd p \<le> now)
                   (zset_at s (rate_limit_key identifier)))"
proof -
  let ?key = "rate_limit_key identifier"
  let ?zs = "survivors now w (zset_at s ?key)"
  note step = checkRateLimit_step [OF assms, of maxReq w now rnd]
  have a: "allowed (fst (checkRateLimit identifier maxReq w now rnd s)) =
           (int (length ?zs) < maxReq)"
    by (simp add: step)
  have b: "allowed (fst (checkRateLimit identifier maxReq w now rnd s)) \<longrightarrow>
            remaining (fst (checkRateLimit identifier maxReq w now rnd s)) =
              maxReq - int (length ?zs) - 1"
    by (simp add: step)
  have c: "0 < w \<longrightarrow>
            (\<forall>p\<in>set (zset_at (snd (checkRateLimit identifier maxReq w now rnd s)) ?key).
               now - w < snd p)"
  proof (intro impI)
    assume w: "0 < w"
    have ttl: "\<not> ceil_div_1000 w + 1 \<le> 0"
      using ceil_div_1000_bound [of w] w by linarith
    have sv: "\<forall>p\<in>set ?zs. now - w < snd p" by (simp add: survivors_def)
    show "\<forall>p\<in>set (zset_at (snd (checkRateLimit identifier maxReq w now rnd s)) ?key).
               now - w < snd p"
    proof (cases "int (length ?zs) < maxReq")
      case True
      then show ?thesis
        using ttl sv w set_zset_add [of "member_id now rnd" now ?zs]
        by (auto simp add: step)
    next
      case False
      then show ?thesis
        using sv assms(2) by (simp add: step zset_at_purged)
    qed
  qed
  have d: "(\<forall>p\<in>set (zset_at s ?key). snd p \<le> now) \<longrightarrow>
            filter (\<lambda>p. now - w < snd p) (zset_at s ?key) =
            filter (\<lambda>p. now - w < snd p \<and> snd p \<le> now) (zset_at s ?key)"
    by (auto intro: filter_cong)
  from a b c d show ?thesis unfolding survivors_def by blast
qed

text \<open>A member stamped exactly \<open>windowStart\<close> is purged and not counted.\<close>

theorem checkRateLimit_window_witness:
  "faults (put (rate_limit_key ''A'') (RZSet [(''0-a'', 0), (''500-b'', 500)], None)
             (empty_store 1000)) = [] \<and>
   \<not> holds_string (put (rate_limit_key ''A'') (RZSet [(''0-a'', 0), (''500-b'', 500)], None)
             (empty_store 1000)) (rate_limit_key ''A'') \<and>
   (0::int) < 1000 \<and>
   list_all (\<lambda>p. snd p \<le> 1000)
     (zset_at (put (rate_limit_key ''A'') (RZSet [(''0-a'', 0), (''500-b'', 500)], None)
             (empty_store 1000)) (rate_limit_key ''A'')) \<and>
   allowed (fst (checkRateLimit ''A'' 3 1000 1000 ''x''
             (put (rate_limit_key ''A'') (RZSet [(''0-a'', 0), (''500-b'', 500)], None)
                (empty_store 1000)))) \<and>
   remaining (fst (checkRateLimit ''A'' 3 1000 1000 ''x''
             (put (rate_limit_key ''A'') (RZSet [(''0-a'', 0), (''500-b'', 500)], None)
                (empty_store 1000)))) = 1 \<and>
   zset_at (snd (checkRateLimit ''A'' 3 1000 1000 ''x''
             (put (rate_limit_key ''A'') (RZSet [(''0-a'', 0), (''500-b'', 500)], None)
                (empty_store 1000)))) (rate_limit_key ''A'')
     = [(''500-b'', 500), (''1000-x'', 1000)]"
proof -
  let ?s = "put (rate_limit_key ''A'') (RZSet [(''0-a'', 0), (''500-b'', 500)], None)
              (empty_store 1000)"
  let ?r = "checkRateLimit ''A'' 3 1000 1000 ''x'' ?s"
  have h1: "faults ?s = []" by simp
  have h2: "\<not> holds_string ?s (rate_limit_key ''A'')" by simp
  have h3: "(0::int) < 1000" by simp
  have h4: "\<forall>p\<in>set (zset_at ?s (rate_limit_key ''A'')). snd p \<le> 1000" by simp
  note w = checkRateLimit_window [OF h1 h2, of 3 1000 1000 "''x''"]
  have a: "allowed (fst ?r)" using w by simp
  have b: "remaining (fst ?r) = 1" using w a by simp
  have c: "zset_at (snd ?r) (rate_limit_key ''A'') = [(''500-b'', 500), (''1000-x'', 1000)]"
    by (simp add: scenario_eval)
  have h4': "list_all (\<lambda>p. snd p \<le> 1000) (zset_at ?s (rate_limit_key ''A''))" by simp
  from h1 h2 h3 h4' a b c show ?thesis by blast
qed

subsection \<open>C9: the range of \<open>remaining\<close>\<close>

text \<open>
  C9: for every call of \<^verbatim>\<open>checkRateLimit\<close> with \<open>maxRequests \<ge> 1\<close>, whatever the store does,
  the returned \<open>remaining\<close> lies between 0 and \<open>maxRequests\<close>, and it is 0 whenever
  \<open>allowed\<close> is false.
\<close>

theorem checkRateLimit_remaining_bounds:
  assumes "1 \<le> maxReq"
  shows "0 \<le> remaining (fst (checkRateLimit identifier maxReq w now rnd s)) \<and>
         remaining (fst (checkRateLimit identifier maxReq w now rnd s)) \<le> maxReq \<and>
         (\<not> allowed (fst (checkRateLimit identifier maxReq w now rnd s)) \<longrightarrow>
            remaining (fst (checkRateLimit identifier maxReq w now rnd s)) = 0)"
proof (cases "checkRateLimit_try (rate_limit_key identifier) maxReq w now rnd s")
  case (Pair res s')
  show ?thesis
  proof (cases res)
    case (Inl e)
    with Pair assms show ?thesis by (simp add: checkRateLimit_def)
  next
    case (Inr r)
    with Pair try_result_shape [of "rate_limit_key identifier" maxReq w now rnd s r s'] assms
    show ?thesis by (auto simp add: checkRateLimit_def)
  qed
qed

text \<open>A denied call with \<open>maxRequests = 1\<close>.\<close>

theorem checkRateLimit_remaining_bounds_witness:
  "(1::int) \<le> 1 \<and>
   \<not> allowed (fst (checkRateLimit ''A'' 1 1000 100 ''y''
                  (put (rate_limit_key ''A'') (RZSet [(''0-x'', 0)], Some 2000) (empty_store 100)))) \<and>
   remaining (fst (checkRateLimit ''A'' 1 1000 100 ''y''
                  (put (rate_limit_key ''A'') (RZSet [(''0-x'', 0)], Some 2000) (empty_store 100)))) = 0"
proof -
  let ?s = "put (rate_limit_key ''A'') (RZSet [(''0-x'', 0)], Some 2000) (empty_store 100)"
  have h: "(1::int) \<le> 1" by simp
  have d: "\<not> allowed (fst (checkRateLimit ''A'' 1 1000 100 ''y'' ?s))"
    by (simp add: scenario_eval)
  from checkRateLimit_remaining_bounds [OF h, of "''A''" 1000 100 "''y''" ?s] d
  have "remaining (fst (checkRateLimit ''A'' 1 1000 100 ''y'' ?s)) = 0" by blast
  with h d show ?thesis by blast
qed


subsection \<open>The cache on a store that answers\<close>

lemma get_quiet:
  "faults s = [] \<Longrightarrow> get key s =
     (case lookup s key of
        None \<Rightarrow> (Inr None, s)
      | Some (RString t, d) \<Rightarrow> (Inr (Some t), s)
      | Some (RZSet zs, d) \<Rightarrow> (Inl WrongType, s))"
  by (simp add: get_def command_quiet)

lemma getJson_absent: "faults s = [] \<Longrightarrow> lookup s key = None \<Longrightarrow> getJson key s = (Inr JNull, s)"
  by (simp add: getJson_def get_quiet)

lemma getJson_text:
  "faults s = [] \<Longrightarrow> lookup s key = Some (RString (Stringified j), d) \<Longrightarrow>
   getJson key s = (Inr j, s)"
  by (simp add: getJson_def get_quiet JSON_parse_def truthy_text_def)

lemma getJson_stored:
  "faults s = [] \<Longrightarrow> lookup s key = Some (RString (JSON_stringify v), d) \<Longrightarrow>
   getJson key s = (Inr (json_of v), s)"
  by (simp add: getJson_text JSON_stringify_def)

lemma setJson_quiet:
  assumes "faults s = []" "0 \<le> ttl"
  shows "setJson key v (Some ttl) s =
     (Inr (), put key (RString (JSON_stringify v),
                       if ttl = 0 then None else Some (clock s + ttl * 1000)) s)"
  using assms by (simp add: setJson_def setex_def set_key_def command_quiet)

lemma cache_miss:
  assumes "faults s = []" "getJson key s = (Inr JNull, s)" "fetcher w = (Inr v, w1)" "0 \<le> ttl"
  shows "cache key fetcher (Some ttl) s w =
     (Inr v, put key (RString (JSON_stringify v),
                      if ttl = 0 then None else Some (clock s + ttl * 1000)) s, w1)"
  using assms by (simp add: cache_def setJson_quiet)


lemma lookup_faults_update [simp]: "lookup (s\<lparr>faults := fs\<rparr>) k = lookup s k"
  by (simp add: lookup_def)

lemma put_faults_update: "put k e (s\<lparr>faults := fs\<rparr>) = (put k e s)\<lparr>faults := fs\<rparr>"
  by (simp add: put_def)

lemmas cache_eval =
  cache_twice_def cache_def getJson_def get_def setJson_def setex_def set_key_def
  keys_def del_def invalidateCache_def command_def pop_fault_def
  JSON_stringify_def JSON_parse_def truthy_text_def counting_fetcher_def lookup_tick Let_def

subsection \<open>C5: two calls of \<open>cache\<close> in a row\<close>


text \<open>
  The value served on a hit is the one parsed from the stored text, and that text is
  \<^verbatim>\<open>JSON.stringify\<close> of the fetched value.  So a fetcher that resolves to \<^verbatim>\<open>NaN\<close>, which is
  written as \<^verbatim>\<open>null\<close>, runs twice as well; and a row with a \<^verbatim>\<open>Date\<close> column, as the
  fetchers of the file router return, comes back from the second call with a string in
  its place.
\<close>

lemma cache_twice_nan_fetches_twice:
  "\<not> snd (snd (cache_twice ''files:user:42'' (counting_fetcher JNaN) (Some 300) 1000
                   (empty_store 0) 0)) \<le> 1"
  by (simp add: cache_eval)

lemma cache_twice_date_comes_back_as_string:
  "fst (cache_twice ''files:user:42''
          (counting_fetcher (JObj [(''createdAt'', JDate ''2024-01-01T00:00:00.000Z'')]))
          (Some 300) 1000 (empty_store 0) 0)
     = (Inr (JObj [(''createdAt'', JDate ''2024-01-01T00:00:00.000Z'')]),
        Inr (JObj [(''createdAt'', JStr ''2024-01-01T00:00:00.000Z'')]))"
  by (simp add: cache_eval)



subsection \<open>C6: \<open>cache\<close> when the store fails\<close>

text \<open>
  C6: for every key, fetcher and ttl, when the read of the store raises, \<open>cache\<close> returns
  what a direct invocation of the fetcher returns; and when the read misses, the fetcher
  resolves and the write raises, \<open>cache\<close> returns what a further direct invocation of the
  fetcher returns.  In both cases the error of the store does not reach the caller.
\<close>

theorem cache_store_error_falls_back:
  "(fst (get key s) = Inl e \<longrightarrow>
      cache key fetcher ttlArg s w = (fst (fetcher w), snd (get key s), snd (fetcher w))) \<and>
   (fst (getJson key s) = Inr JNull \<and> fetcher w = (Inr fresh, wa) \<and>
    fst (setJson key fresh (Some (case ttlArg of None \<Rightarrow> 3600 | Some t \<Rightarrow> t))
           (snd (getJson key s))) = Inl e' \<longrightarrow>
      cache key fetcher ttlArg s w =
        (fst (fetcher wa),
         snd (setJson key fresh (Some (case ttlArg of None \<Rightarrow> 3600 | Some t \<Rightarrow> t))
                (snd (getJson key s))),
         snd (fetcher wa)))"
  by (auto simp add: cache_def getJson_def Let_def split: prod.splits sum.splits option.splits)

text \<open>A failing read, and a failing write after which the fetcher has run twice.\<close>

theorem cache_store_error_falls_back_witness:
  "fst (get ''k'' ((empty_store 0)\<lparr>faults := [True]\<rparr>)) = Inl StoreUnavailable \<and>
   cache ''k'' (counting_fetcher (JNum 5)) None ((empty_store 0)\<lparr>faults := [True]\<rparr>) 0
     = (Inr (JNum 5), (empty_store 0)\<lparr>faults := []\<rparr>, 1) \<and>
   fst (getJson ''k'' ((empty_store 0)\<lparr>faults := [False, True]\<rparr>)) = Inr JNull \<and>
   counting_fetcher (JNum 5) 0 = (Inr (JNum 5), 1) \<and>
   fst (setJson ''k'' (JNum 5) (Some 3600)
          (snd (getJson ''k'' ((empty_store 0)\<lparr>faults := [False, True]\<rparr>))))
     = Inl StoreUnavailable \<and>
   cache ''k'' (counting_fetcher (JNum 5)) None ((empty_store 0)\<lparr>faults := [False, True]\<rparr>) 0
     = (Inr (JNum 5), (empty_store 0)\<lparr>faults := []\<rparr>, 2)"
proof -
  let ?f = "counting_fetcher (JNum 5)"
  let ?sr = "(empty_store 0)\<lparr>faults := [True]\<rparr>"
  let ?sw = "(empty_store 0)\<lparr>faults := [False, True]\<rparr>"
  have r1: "fst (get ''k'' ?sr) = Inl StoreUnavailable"
    by (simp add: get_def command_def pop_fault_def)
  have w1: "fst (getJson ''k'' ?sw) = Inr JNull"
    by (simp add: getJson_def get_def command_def pop_fault_def)
  have w2: "?f 0 = (Inr (JNum 5), 1)" by (simp add: counting_fetcher_def)
  have w3: "fst (setJson ''k'' (JNum 5) (Some 3600) (snd (getJson ''k'' ?sw))) = Inl StoreUnavailable"
    by (simp add: setJson_def setex_def getJson_def get_def command_def pop_fault_def)
  have a: "cache ''k'' ?f None ?sr 0 = (fst (?f 0), snd (get ''k'' ?sr), snd (?f 0))"
    using cache_store_error_falls_back [where fetcher = ?f and w = 0 and s = ?sr and key = "''k''"
        and e = StoreUnavailable and ttlArg = None] r1
    by blast
  have b: "cache ''k'' ?f None ?sw 0 =
      (fst (?f 1), snd (setJson ''k'' (JNum 5) (Some 3600) (snd (getJson ''k'' ?sw))), snd (?f 1))"
    using cache_store_error_falls_back [where fetcher = ?f and w = 0 and s = ?sw and key = "''k''"
        and e' = StoreUnavailable and ttlArg = None and fresh = "JNum 5" and wa = 1] w1 w2 w3
    by simp
  have a': "cache ''k'' ?f None ?sr 0 = (Inr (JNum 5), (empty_store 0)\<lparr>faults := []\<rparr>, 1)"
    using a by (simp add: counting_fetcher_def get_def command_def pop_fault_def)
  have b': "cache ''k'' ?f None ?sw 0 = (Inr (JNum 5), (empty_store 0)\<lparr>faults := []\<rparr>, 2)"
    using b by (simp add: counting_fetcher_def setJson_def setex_def getJson_def get_def
        command_def pop_fault_def)
  from r1 a' w1 w2 w3 b' show ?thesis by blast
qed

subsection \<open>C7: \<open>invalidateCache\<close> when the store fails\<close>

text \<open>
  C7, as the specification states it, has \<open>invalidateCache\<close> recover a failure of the
  store locally.  The \<^verbatim>\<open>catch\<close> block of \<open>invalidateCache\<close> logs the error and throws it
  again: below, KEYS fails and the caller receives the error.
\<close>

theorem invalidateCache_store_error_raised:
  "fst (invalidateCache ''files:user:42:*'' ((empty_store 0)\<lparr>faults := [True]\<rparr>))
     = Inl StoreUnavailable"
  by (simp add: invalidateCache_def keys_def command_def pop_fault_def)

text \<open>
  C7 (amended): for every pattern, when the store raises during
  \<^verbatim>\<open>invalidateCache(pattern)\<close>, in KEYS or in the DEL of the keys found, the error is
  logged and raised again to the caller; \<open>invalidateCache\<close> does not fail open.
\<close>

theorem invalidateCache_rethrows:
  "(fst (keys pat s) = Inl e \<longrightarrow> fst (invalidateCache pat s) = Inl e) \<and>
   (fst (keys pat s) = Inr ks \<and> ks \<noteq> [] \<and> fst (del ks (snd (keys pat s))) = Inl e'
      \<longrightarrow> fst (invalidateCache pat s) = Inl e')"
  by (auto simp add: invalidateCache_def split: prod.splits sum.splits)

text \<open>A failing KEYS, and a failing DEL after KEYS has found a key.\<close>

theorem invalidateCache_rethrows_witness:
  "fst (keys ''files:user:42:*'' ((empty_store 0)\<lparr>faults := [True]\<rparr>)) = Inl StoreUnavailable \<and>
   fst (invalidateCache ''files:user:42:*'' ((empty_store 0)\<lparr>faults := [True]\<rparr>))
     = Inl StoreUnavailable \<and>
   fst (keys ''files:user:42:*''
          ((put ''files:user:42:a'' (RString (JSON_stringify (JNum 5)), None) (empty_store 0))
             \<lparr>faults := [False, True]\<rparr>)) = Inr [''files:user:42:a''] \<and>
   fst (del [''files:user:42:a'']
          (snd (keys ''files:user:42:*''
             ((put ''files:user:42:a'' (RString (JSON_stringify (JNum 5)), None) (empty_store 0))
                \<lparr>faults := [False, True]\<rparr>)))) = Inl StoreUnavailable \<and>
   fst (invalidateCache ''files:user:42:*''
          ((put ''files:user:42:a'' (RString (JSON_stringify (JNum 5)), None) (empty_store 0))
             \<lparr>faults := [False, True]\<rparr>)) = Inl StoreUnavailable"
proof -
  let ?p = "''files:user:42:*''"
  let ?s1 = "(empty_store 0)\<lparr>faults := [True]\<rparr>"
  let ?s2 = "(put ''files:user:42:a'' (RString (JSON_stringify (JNum 5)), None) (empty_store 0))
               \<lparr>faults := [False, True]\<rparr>"
  have k1: "fst (keys ?p ?s1) = Inl StoreUnavailable"
    by (simp add: keys_def command_def pop_fault_def)
  have k2: "fst (keys ?p ?s2) = Inr [''files:user:42:a'']"
    by (simp add: keys_def command_def pop_fault_def put_def empty_store_def
        sorted_list_of_fset.rep_eq)
  have d2: "fst (del [''files:user:42:a''] (snd (keys ?p ?s2))) = Inl StoreUnavailable"
    by (simp add: keys_def del_def command_def pop_fault_def)
  have a: "fst (invalidateCache ?p ?s1) = Inl StoreUnavailable"
    using invalidateCache_rethrows [of ?p ?s1 StoreUnavailable] k1 by blast
  have b: "fst (invalidateCache ?p ?s2) = Inl StoreUnavailable"
    using invalidateCache_rethrows [of ?p ?s2 _ "[''files:user:42:a'']" StoreUnavailable] k2 d2
    by blast
  from k1 a k2 d2 b show ?thesis by blast
qed

subsection \<open>C10: a fetcher that resolves to \<^verbatim>\<open>null\<close>\<close>

text \<open>
  C10: when the fetcher passed to \<open>cache\<close> resolves to \<^verbatim>\<open>null\<close> on a miss, the text
  \<^verbatim>\<open>"null"\<close> is written to the store under the key; and a call of \<open>cache\<close> that finds this
  text under the key (whatever its deadline) does not serve it: it invokes the fetcher,
  returns the fetcher's value and stores it.
\<close>

theorem cache_null_never_served:
  assumes "faults s = []" "lookup s key = None" "0 < ttl" "fetcher w = (Inr JNull, wa)"
    and "faults s' = []" "lookup s' key = Some (RString (JSON_stringify JNull), d)"
    and "fetcher w' = (Inr v, wb)"
  shows "cache key fetcher (Some ttl) s w =
           (Inr JNull, put key (RString (JSON_stringify JNull), Some (clock s + ttl * 1000)) s, wa) \<and>
         cache key fetcher (Some ttl) s' w' =
           (Inr v, put key (RString (JSON_stringify v), Some (clock s' + ttl * 1000)) s', wb)"
proof -
  have a: "getJson key s = (Inr JNull, s)" using assms(1,2) by (rule getJson_absent)
  have b: "getJson key s' = (Inr JNull, s')" using assms(5,6) by (simp add: getJson_stored)
  have ttl: "0 \<le> ttl" "ttl \<noteq> 0" using assms(3) by simp_all
  show ?thesis
    using cache_miss [where fetcher = fetcher and w = w, OF assms(1) a assms(4) ttl(1)]
      cache_miss [where fetcher = fetcher and w = w', OF assms(5) b assms(7) ttl(1)] ttl(2)
    by simp
qed

text \<open>A fetcher that always resolves to \<^verbatim>\<open>null\<close> runs on the first and on a later call.\<close>

theorem cache_null_never_served_witness:
  "faults (empty_store 0) = [] \<and> lookup (empty_store 0) ''k'' = None \<and> (0::int) < 300 \<and>
   counting_fetcher JNull 0 = (Inr JNull, 1) \<and>
   lookup (put ''k'' (RString (JSON_stringify JNull), Some 300000) (empty_store 1000)) ''k''
     = Some (RString (JSON_stringify JNull), Some 300000) \<and>
   cache ''k'' (counting_fetcher JNull) (Some 300) (empty_store 0) 0
     = (Inr JNull, put ''k'' (RString (JSON_stringify JNull), Some 300000) (empty_store 0), 1) \<and>
   cache ''k'' (counting_fetcher JNull) (Some 300)
       (put ''k'' (RString (JSON_stringify JNull), Some 300000) (empty_store 1000)) 1
     = (Inr JNull, put ''k'' (RString (JSON_stringify JNull), Some 301000) (empty_store 1000), 2)"
proof -
  let ?s' = "put ''k'' (RString (JSON_stringify JNull), Some 300000) (empty_store 1000)"
  have h1: "faults (empty_store 0) = []" by simp
  have h2: "lookup (empty_store 0) ''k'' = None" by simp
  have h3: "(0::int) < 300" by simp
  have h4: "counting_fetcher JNull 0 = (Inr JNull, 1)" by (simp add: counting_fetcher_def)
  have h5: "faults ?s' = []" by simp
  have h6: "lookup ?s' ''k'' = Some (RString (JSON_stringify JNull), Some 300000)" by simp
  have h7: "counting_fetcher JNull 1 = (Inr JNull, 2)" by (simp add: counting_fetcher_def)
  from cache_null_never_served [where fetcher = "counting_fetcher JNull" and w = 0 and w' = 1,
      OF h1 h2 h3 h4 h5 h6 h7]
  have "cache ''k'' (counting_fetcher JNull) (Some 300) (empty_store 0) 0
          = (Inr JNull, put ''k'' (RString (JSON_stringify JNull), Some 300000) (empty_store 0), 1)"
    and "cache ''k'' (counting_fetcher JNull) (Some 300) ?s' 1
          = (Inr JNull, put ''k'' (RString (JSON_stringify JNull), Some 301000) (empty_store 1000), 2)"
    by simp_all
  with h1 h2 h3 h4 h6 show ?thesis by blast
qed



subsection \<open>The middleware on a store that answers\<close>

lemma member_id_nonempty [simp]: "member_id now rnd \<noteq> []"
  by (simp add: member_id_def)

lemma request_key_neq [simp]:
  "request_key x \<noteq> rate_limit_key y"
  "rate_limit_key y \<noteq> request_key x"
  by (simp_all add: rate_limit_key_def request_key_def)

lemma checkRateLimit_admits:
  assumes "faults s = []" "\<not> holds_string s (rate_limit_key identifier)"
    and "int (length (survivors now w (zset_at s (rate_limit_key identifier)))) < maxReq"
    and "0 < w"
  shows "checkRateLimit identifier maxReq w now rnd s =
     (\<lparr>allowed = True,
       remaining = maxReq - int (length (survivors now w (zset_at s (rate_limit_key identifier)))) - 1,
       resetAt = now + w, memberId = Some (member_id now rnd)\<rparr>,
      put (rate_limit_key identifier)
        (RZSet (zset_add (member_id now rnd) now
                  (survivors now w (zset_at s (rate_limit_key identifier)))),
         Some (clock s + (ceil_div_1000 w + 1) * 1000)) s)"
proof -
  have ttl: "\<not> ceil_div_1000 w + 1 \<le> 0"
    using ceil_div_1000_bound [of w] assms(4) by linarith
  show ?thesis
    using try_allowed [OF assms(1-3), of rnd] ttl by (simp add: checkRateLimit_def)
qed

lemma setWithExpiry_quiet:
  "faults s = [] \<Longrightarrow> 0 < ttl \<Longrightarrow>
   setWithExpiry k v ttl s = (Inr (), put k (RString v, Some (clock s + ttl * 1000)) s)"
  by (simp add: setWithExpiry_def setex_def command_quiet)

lemma before_admitted:
  assumes "faults s = []" "\<not> holds_string s (rate_limit_key (keyGenerator cfg c))"
    and "int (length (survivors (env_now ev) (windowMs cfg)
                 (zset_at s (rate_limit_key (keyGenerator cfg c))))) < maxRequests cfg"
    and "0 < windowMs cfg"
    and "skipSuccessfulRequests cfg \<or> skipFailedRequests cfg"
  shows "fst (rateLimiter_before cfg ev c s) = Inr None \<and>
         snd (snd (rateLimiter_before cfg ev c s)) =
           put (request_key (env_nanoid ev))
             (RString (request_record (keyGenerator cfg c) (env_stamp ev)
                         (member_id (env_now ev) (env_random ev))),
              Some (clock s + 60 * 1000))
             (put (rate_limit_key (keyGenerator cfg c))
                (RZSet (zset_add (member_id (env_now ev) (env_random ev)) (env_now ev)
                          (survivors (env_now ev) (windowMs cfg)
                             (zset_at s (rate_limit_key (keyGenerator cfg c))))),
                 Some (clock s + (ceil_div_1000 (windowMs cfg) + 1) * 1000)) s)"
proof -
  note cr = checkRateLimit_admits [OF assms(1-4), of "env_random ev"]
  show ?thesis
    unfolding rateLimiter_before_def Let_def cr
    using assms(1,5)
    by (simp add: setWithExpiry_quiet request_record_def)
qed


lemma zrem_quiet:
  assumes "faults s = []" "\<not> holds_string s key"
  shows "snd (zrem key m s) = member_removed key m s \<and> (\<exists>n. fst (zrem key m s) = Inr n)"
  using assms
  by (auto simp add: zrem_def command_quiet member_removed_def holds_string_def Let_def
      split: option.splits rvalue.splits)

lemma faults_member_removed [simp]: "faults (member_removed key m s) = faults s"
  by (simp add: member_removed_def split: option.splits rvalue.splits)

lemma deleteKey_quiet:
  "faults s = [] \<Longrightarrow> snd (deleteKey k s) = drop_key k s \<and> (\<exists>n. fst (deleteKey k s) = Inr n)"
  by (simp add: deleteKey_def del_def command_quiet)

lemma rollback_quiet:
  assumes "faults s = []" "\<not> holds_string s (rate_limit_key identifier)" "m \<noteq> []"
  shows "rollback (request_record identifier stamp m) rk s =
           (Inr (), drop_key rk (member_removed (rate_limit_key identifier) m s))"
proof -
  let ?key = "rate_limit_key identifier"
  obtain n where z: "zrem ?key m s = (Inr n, member_removed ?key m s)"
    using zrem_quiet [OF assms(1,2), of m] by (cases "zrem ?key m s") auto
  have q: "faults (member_removed ?key m s) = []" using assms(1) by simp
  obtain n' where d: "deleteKey rk (member_removed ?key m s) =
      (Inr n', drop_key rk (member_removed ?key m s))"
    using deleteKey_quiet [OF q, of rk] by (cases "deleteKey rk (member_removed ?key m s)") auto
  have k: "''rate_limit:'' @ identifier = ?key" by (simp add: rate_limit_key_def)
  have ne: "?key \<noteq> []" by (simp add: rate_limit_key_def)
  show ?thesis
    unfolding rollback_def request_record_def JSON_stringify_def JSON_parse_def k
    using assms(3) ne by (simp add: json_field_def z d)
qed

lemma zset_at_member_removed:
  "\<not> holds_string s key \<Longrightarrow>
   zset_at (member_removed key m s) key = filter (\<lambda>p. fst p \<noteq> m) (zset_at s key)"
  by (auto simp add: member_removed_def zset_at_def holds_string_def
      split: option.splits rvalue.splits)

text \<open>
  What the body of the inner \<^verbatim>\<open>try\<close> does when it runs on the record of an admission: it
  takes exactly the recorded member out of the window set and deletes the record.
\<close>

lemma rollback_removes_member:
  assumes "faults s = []" "\<not> holds_string s (rate_limit_key identifier)" "m \<noteq> []"
    and "rk \<noteq> rate_limit_key identifier"
  shows "fst (rollback (request_record identifier stamp m) rk s) = Inr () \<and>
         zset_at (snd (rollback (request_record identifier stamp m) rk s))
                 (rate_limit_key identifier)
           = filter (\<lambda>p. fst p \<noteq> m) (zset_at s (rate_limit_key identifier)) \<and>
         lookup (snd (rollback (request_record identifier stamp m) rk s)) rk = None"
proof -
  let ?key = "rate_limit_key identifier"
  have "zset_at (drop_key rk (member_removed ?key m s)) ?key = zset_at (member_removed ?key m s) ?key"
    using assms(4) by (simp add: zset_at_def)
  then show ?thesis
    using rollback_quiet [OF assms(1-3), of stamp rk] zset_at_member_removed [OF assms(2), of m]
    by simp
qed

text \<open>
  The skip tests compare \<^verbatim>\<open>response.status\<close>, which is not a number, with 400: both are
  false, and the part after \<^verbatim>\<open>await next()\<close> leaves the store as it finds it, for every
  configuration.
\<close>

lemma rateLimiter_after_never_rolls_back: "rateLimiter_after cfg ev resp s = (Inr resp, s)"
  by (simp add: rateLimiter_after_def status_number_def js_less_def js_greater_eq_def)

text \<open>
  Hence an admitted request leaves the middleware with the store as the downstream left
  it: the member of the admission and the Rollback Record are still there.
\<close>

lemma rateLimiter_admitted_keeps_member:
  assumes nw: "case whitelist cfg of None \<Rightarrow> True | Some wl \<Rightarrow> getClientIp c \<notin> set wl"
    and quiet: "faults s = []"
    and nostr: "\<not> holds_string s (rate_limit_key (keyGenerator cfg c))"
    and admitted: "int (length (survivors (env_now ev) (windowMs cfg)
                      (zset_at s (rate_limit_key (keyGenerator cfg c))))) < maxRequests cfg"
    and window: "0 < windowMs cfg"
    and skipflag: "skipSuccessfulRequests cfg \<or> skipFailedRequests cfg"
    and before: "rateLimiter_before cfg ev c s = (b, ca, sa)"
    and down: "rest ca sa = (Inr u, cb, sb)"
  shows "rateLimiter cfg ev rest c s = (Inr None, cb, sb)"
proof -
  have b: "b = Inr None"
    using before_admitted [OF quiet nostr admitted window skipflag] before by simp
  have notwl: "\<not> (case whitelist cfg of None \<Rightarrow> False | Some wl \<Rightarrow> getClientIp c \<in> set wl)"
    using nw by (cases "whitelist cfg") simp_all
  show ?thesis
    unfolding rateLimiter_def using notwl
    by (simp add: before b down rateLimiter_after_never_rolls_back)
qed

lemma demo_identifier: "keyGenerator demo_config demo_context = ''10.0.0.7:/api/files''"
  by (simp add: demo_config_def default_config_def demo_context_def defaultKeyGenerator_def
      getClientIp_def ipHeaders_def)

subsection \<open>C8: rollback of an admitted request\<close>

text \<open>
  C8 says that when a request is admitted with a Rollback Record stored and the skip
  condition matches the outcome of the response, the middleware removes the admitted
  member from the window set and deletes the record, so that a later check counts one
  request fewer.  The code has the rollback (\<open>rollback_removes_member\<close>) but never
  reaches it: it tests \<^verbatim>\<open>response.status\<close> on what \<^verbatim>\<open>await next()\<close> yields, which is not
  the response.  At the input below the middleware skips successful requests, client
  10.0.0.7 is admitted at time 5000 next to one earlier admission, and the downstream
  answers 200 after 50 milliseconds.  The middleware returns with the record and the
  member \<open>5000-abc\<close> still in the store, and the next check for the client answers 97
  remaining of 100, where C8 says 98.
\<close>

theorem rateLimiter_skip_never_rolls_back:
  "skipSuccessfulRequests demo_config \<and>
   fst (rateLimiter demo_config demo_env demo_next demo_context demo_store) = Inr None \<and>
   c_res (fst (snd (rateLimiter demo_config demo_env demo_next demo_context demo_store)))
     = Some \<lparr>status = 200, body = JNull\<rparr> \<and>
   lookup (snd (snd (rateLimiter demo_config demo_env demo_next demo_context demo_store)))
     (request_key ''r1'')
     = Some (RString (request_record ''10.0.0.7:/api/files'' 5000 ''5000-abc''), Some 65000) \<and>
   zset_at (snd (snd (rateLimiter demo_config demo_env demo_next demo_context demo_store)))
     (rate_limit_key ''10.0.0.7:/api/files'') = [(''4000-zzz'', 4000), (''5000-abc'', 5000)] \<and>
   remaining (fst (checkRateLimit ''10.0.0.7:/api/files'' 100 60000 6000 ''q''
       (snd (snd (rateLimiter demo_config demo_env demo_next demo_context demo_store))))) = 97"
proof -
  let ?id = "''10.0.0.7:/api/files''"
  let ?key = "rate_limit_key ?id"
  let ?B = "rateLimiter_before demo_config demo_env demo_context demo_store"
  let ?sa = "snd (snd ?B)"
  let ?cb = "(fst (snd ?B))\<lparr>c_res := Some \<lparr>status = 200, body = JNull\<rparr>\<rparr>"
  let ?sb = "tick 5050 ?sa"
  let ?R = "rateLimiter demo_config demo_env demo_next demo_context demo_store"
  have cfg [simp]: "keyGenerator demo_config demo_context = ?id"
    "whitelist demo_config = None" "skipSuccessfulRequests demo_config"
    "maxRequests demo_config = 100" "windowMs demo_config = 60000"
    by (simp_all add: demo_identifier) (simp_all add: demo_config_def default_config_def)
  have ev [simp]: "env_now demo_env = 5000" "env_random demo_env = ''abc''"
    "env_nanoid demo_env = ''r1''" "env_stamp demo_env = 5000"
    by (simp_all add: demo_env_def)
  have st [simp]: "faults demo_store = []" "\<not> holds_string demo_store ?key"
    "zset_at demo_store ?key = [(''4000-zzz'', 4000)]" "clock demo_store = 5000"
    by (simp_all add: demo_store_def)
  have nw: "case whitelist demo_config of None \<Rightarrow> True
            | Some wl \<Rightarrow> getClientIp demo_context \<notin> set wl" by simp
  have quiet: "faults demo_store = []" by simp
  have nostr: "\<not> holds_string demo_store (rate_limit_key (keyGenerator demo_config demo_context))"
    by simp
  have admitted: "int (length (survivors (env_now demo_env) (windowMs demo_config)
       (zset_at demo_store (rate_limit_key (keyGenerator demo_config demo_context)))))
       < maxRequests demo_config"
    by (simp add: survivors_def)
  have window: "0 < windowMs demo_config" by simp
  have skipflag: "skipSuccessfulRequests demo_config \<or> skipFailedRequests demo_config" by simp
  have before: "?B = (fst ?B, fst (snd ?B), ?sa)" by simp
  have down: "demo_next (fst (snd ?B)) ?sa = (Inr (), ?cb, ?sb)"
    by (simp add: demo_next_def)
  have sa: "?sa = put (request_key ''r1'')
        (RString (request_record ?id 5000 (member_id 5000 ''abc'')), Some 65000)
        (put ?key (RZSet [(''4000-zzz'', 4000), (member_id 5000 ''abc'', 5000)], Some 66000)
           demo_store)"
    using before_admitted [OF quiet nostr admitted window skipflag]
    by (simp add: survivors_def zset_add_def member_id_def show_int_def show_nat.simps
        ceil_div_1000_def)
  have m: "member_id 5000 ''abc'' = ''5000-abc''"
    by (simp add: member_id_def show_int_def show_nat.simps)
  have run: "?R = (Inr None, ?cb, ?sb)"
    using rateLimiter_admitted_keeps_member [where rest = demo_next,
        OF nw quiet nostr admitted window skipflag before down] .
  have qb: "faults ?sb = []" by (simp add: sa)
  have rec: "lookup ?sb (request_key ''r1'')
      = Some (RString (request_record ?id 5000 ''5000-abc''), Some 65000)"
    by (simp add: sa lookup_tick m)
  have zb: "zset_at ?sb ?key = [(''4000-zzz'', 4000), (''5000-abc'', 5000)]"
    by (simp add: zset_at_def sa lookup_tick m)
  have hb: "\<not> holds_string ?sb ?key" by (simp add: holds_string_def sa lookup_tick)
  have rb: "remaining (fst (checkRateLimit ?id 100 60000 6000 ''q'' ?sb)) = 97"
    by (simp add: checkRateLimit_step [OF qb hb] zb survivors_def)
  show ?thesis
    unfolding run using rec zb rb by simp
qed

end
